theory Spec2Isabelle
  imports Main "HOL-Library.Sublist"
begin

section \<open>Strings and the message table\<close>

text \<open>
  Strings are byte sequences (\<open>string\<close>); the non-ASCII texts of the table
  \<open>API_ERROR_MESSAGES\<close> of \<open>route.ts\<close> are given by their UTF-8 bytes.
  No property below depends on the length of such a text.
\<close>

definition utf8 :: "nat list \<Rightarrow> string" where
  "utf8 bs = map char_of bs"

definition TIMEOUT_MS :: nat where
  "TIMEOUT_MS = 30000"

definition MAX_TOKENS :: nat where
  "MAX_TOKENS = 4000"

definition MSG_DEFAULT :: string where
  "MSG_DEFAULT =
     utf8 [0xE4, 0xB8, 0x8E] @ '' DeepSeek API '' @ utf8 [0xE9, 0x80, 0x9A, 0xE4,
       0xBF, 0xA1, 0xE6, 0x97, 0xB6, 0xE5, 0x8F, 0x91, 0xE7, 0x94, 0x9F, 0xE9, 0x94,
       0x99, 0xE8, 0xAF, 0xAF, 0xE3, 0x80, 0x82]"

definition MSG_RATE_LIMIT :: string where
  "MSG_RATE_LIMIT =
     utf8 [0xE9, 0x80, 0x9F, 0xE7, 0x8E, 0x87, 0xE9, 0x99, 0x90, 0xE5, 0x88, 0xB6,
       0xE8, 0xB6, 0x85, 0xE5, 0x87, 0xBA, 0xE3, 0x80, 0x82, 0xE8, 0xAF, 0xB7, 0xE7,
       0xA8, 0x8D, 0xE5, 0x90, 0x8E, 0xE9, 0x87, 0x8D, 0xE8, 0xAF, 0x95, 0xE3, 0x80,
       0x82]"

definition MSG_INVALID_KEY :: string where
  "MSG_INVALID_KEY =
     ''API '' @ utf8 [0xE5, 0xAF, 0x86, 0xE9, 0x92, 0xA5, 0xE6, 0x97, 0xA0, 0xE6,
       0x95, 0x88, 0xE3, 0x80, 0x82, 0xE8, 0xAF, 0xB7, 0xE6, 0xA3, 0x80, 0xE6, 0x9F,
       0xA5, 0xE6, 0x82, 0xA8, 0xE7, 0x9A, 0x84, 0xE9, 0x85, 0x8D, 0xE7, 0xBD, 0xAE,
       0xE3, 0x80, 0x82]"

definition MSG_BAD_REQUEST :: string where
  "MSG_BAD_REQUEST =
     utf8 [0xE8, 0xAF, 0xB7, 0xE6, 0xB1, 0x82, 0xE6, 0xA0, 0xBC, 0xE5, 0xBC, 0x8F,
       0xE6, 0x97, 0xA0, 0xE6, 0x95, 0x88]"

definition MSG_SERVICE_UNAVAILABLE :: string where
  "MSG_SERVICE_UNAVAILABLE =
     ''DeepSeek '' @ utf8 [0xE6, 0x9C, 0x8D, 0xE5, 0x8A, 0xA1, 0xE6, 0x9A, 0x82, 0xE6,
       0x97, 0xB6, 0xE4, 0xB8, 0x8D, 0xE5, 0x8F, 0xAF, 0xE7, 0x94, 0xA8, 0xE3, 0x80,
       0x82, 0xE8, 0xAF, 0xB7, 0xE7, 0xA8, 0x8D, 0xE5, 0x90, 0x8E, 0xE9, 0x87, 0x8D,
       0xE8, 0xAF, 0x95, 0xE3, 0x80, 0x82]"

definition MSG_TIMEOUT :: string where
  "MSG_TIMEOUT =
     utf8 [0xE8, 0xAF, 0xB7, 0xE6, 0xB1, 0x82, 0xE8, 0xB6, 0x85, 0xE6, 0x97, 0xB6]"

definition MSG_STREAM_FAILED :: string where
  "MSG_STREAM_FAILED =
     utf8 [0xE6, 0xB5, 0x81, 0xE5, 0xA4, 0x84, 0xE7, 0x90, 0x86, 0xE5, 0xA4, 0xB1,
       0xE8, 0xB4, 0xA5]"

definition MSG_PARSE_ERROR :: string where
  "MSG_PARSE_ERROR =
     utf8 [0xE8, 0xA7, 0xA3, 0xE6, 0x9E, 0x90, 0xE5, 0x93, 0x8D, 0xE5, 0xBA, 0x94,
       0xE6, 0x95, 0xB0, 0xE6, 0x8D, 0xAE, 0xE6, 0x97, 0xB6, 0xE5, 0x8F, 0x91, 0xE7,
       0x94, 0x9F, 0xE9, 0x94, 0x99, 0xE8, 0xAF, 0xAF]"

definition MSG_INVALID_MESSAGE_SEQUENCE :: string where
  "MSG_INVALID_MESSAGE_SEQUENCE =
     utf8 [0xE6, 0xB6, 0x88, 0xE6, 0x81, 0xAF, 0xE5, 0xBA, 0x8F, 0xE5, 0x88, 0x97,
       0xE6, 0x97, 0xA0, 0xE6, 0x95, 0x88, 0xEF, 0xBC, 0x9A, 0xE7, 0x94, 0xA8, 0xE6,
       0x88, 0xB7, 0xE5, 0x92, 0x8C, 0xE5, 0x8A, 0xA9, 0xE6, 0x89, 0x8B, 0xE7, 0x9A,
       0x84, 0xE6, 0xB6, 0x88, 0xE6, 0x81, 0xAF, 0xE5, 0xBF, 0x85, 0xE9, 0xA1, 0xBB,
       0xE4, 0xBA, 0xA4, 0xE6, 0x9B, 0xBF, 0xE5, 0x87, 0xBA, 0xE7, 0x8E, 0xB0]"

definition MSG_REASONING_CONTENT_NOT_ALLOWED :: string where
  "MSG_REASONING_CONTENT_NOT_ALLOWED =
     utf8 [0xE6, 0xB6, 0x88, 0xE6, 0x81, 0xAF, 0xE5, 0x8E, 0x86, 0xE5, 0x8F, 0xB2,
       0xE4, 0xB8, 0xAD, 0xE4, 0xB8, 0x8D, 0xE5, 0x85, 0x81, 0xE8, 0xAE, 0xB8, 0xE5,
       0x8C, 0x85, 0xE5, 0x90, 0xAB, 0xE6, 0x80, 0x9D, 0xE7, 0xBB, 0xB4, 0xE9, 0x93,
       0xBE, 0xE5, 0x86, 0x85, 0xE5, 0xAE, 0xB9]"

definition MSG_INVALID_PARAMS :: string where
  "MSG_INVALID_PARAMS =
     utf8 [0xE6, 0x97, 0xA0, 0xE6, 0x95, 0x88, 0xE7, 0x9A, 0x84, 0xE8, 0xAF, 0xB7,
       0xE6, 0xB1, 0x82, 0xE5, 0x8F, 0x82, 0xE6, 0x95, 0xB0]"

definition MSG_KEY_NOT_CONFIGURED :: string where
  "MSG_KEY_NOT_CONFIGURED =
     ''API'' @ utf8 [0xE5, 0xAF, 0x86, 0xE9, 0x92, 0xA5, 0xE6, 0x9C, 0xAA, 0xE9, 0x85,
       0x8D, 0xE7, 0xBD, 0xAE]"

text \<open>
  \<open>MSG_INVALID_PARAMS\<close> and \<open>MSG_KEY_NOT_CONFIGURED\<close> are the two literals that
  \<open>validateAndParseRequest\<close> and \<open>getApiConfig\<close> write inline; the literal thrown by
  \<open>validateMessageSequence\<close> is the same text as the table's
  \<open>INVALID_MESSAGE_SEQUENCE\<close>.
\<close>

definition newline :: string where
  "newline = [CHR 0x0A]"

section \<open>Errors\<close>

text \<open>
  Everything the handler can throw: the repository's own \<open>ApiError\<close> (message and
  status), the engine's \<open>TypeError\<close> (property access on \<open>null\<close>/\<open>undefined\<close>,
  a write to a primitive in strict mode, an operation on a closed stream controller, a
  failed \<open>fetch\<close>), the \<open>AbortError\<close> with which an aborted \<open>fetch\<close> rejects, and
  the \<open>RangeError\<close> of the \<open>Response\<close> constructor, a plain \<open>new Error(message)\<close>, and the \<open>SyntaxError\<close> of \<open>JSON.parse\<close>.
\<close>

datatype error =
    ApiError string nat
  | TypeError
  | SyntaxError
  | AbortError
  | RangeError
  | PlainError string

fun is_ApiError :: "error \<Rightarrow> bool" where
  "is_ApiError (ApiError m s) = True"
| "is_ApiError e = False"

section \<open>Messages as objects in a store\<close>

text \<open>
  \<open>interface Message\<close>. A \<open>Message[]\<close> is an array of references to objects, and
  \<open>normalizeMessages\<close> writes to the objects it keeps, so the objects live in a store
  (a list indexed by address) and an array is a list of addresses.
\<close>

record Message =
  role :: string
  content :: string
  reasoning_content :: "string option"

type_synonym addr = nat
type_synonym heap = "Message list"

text \<open>
  The callback of \<open>messages.reduce\<close> in \<open>normalizeMessages\<close>, with the accumulator
  \<open>acc\<close>, the element \<open>curr\<close> (here \<open>cur\<close>) and its \<open>index\<close>. \<open>acc[acc.length - 1]\<close> of an empty
  array is \<open>undefined\<close>, whose \<open>.role\<close> throws.
\<close>

definition merge_step :: "heap \<times> addr list \<Rightarrow> addr \<Rightarrow> nat \<Rightarrow> error + heap \<times> addr list" where
  "merge_step s cur index =
     (case s of (h, acc) \<Rightarrow>
        if index = 0 then Inr (h, acc @ [cur])
        else if acc = [] then Inl TypeError
        else
          let prevMsg = last acc in
          if role (h ! prevMsg) = role (h ! cur)
          then Inr (h[prevMsg := (h ! prevMsg)\<lparr>content :=
                      content (h ! prevMsg) @ newline @ content (h ! cur)\<rparr>], acc)
          else Inr (h, acc @ [cur]))"

fun reduce :: "heap \<times> addr list \<Rightarrow> addr list \<Rightarrow> nat \<Rightarrow> error + heap \<times> addr list" where
  "reduce s [] index = Inr s"
| "reduce s (cur # rest) index =
     (case merge_step s cur index of
        Inl e \<Rightarrow> Inl e
      | Inr s' \<Rightarrow> reduce s' rest (Suc index))"

text \<open>\<open>validateMessageSequence\<close>: the loop over \<open>i = 1 .. length - 1\<close>.\<close>

fun validateMessageSequence :: "heap \<Rightarrow> addr list \<Rightarrow> error + unit" where
  "validateMessageSequence h (a # b # rest) =
     (if role (h ! b) = role (h ! a)
      then Inl (ApiError MSG_INVALID_MESSAGE_SEQUENCE 400)
      else validateMessageSequence h (b # rest))"
| "validateMessageSequence h msgs = Inr ()"

definition normalizeMessages :: "heap \<Rightarrow> addr list \<Rightarrow> error + heap \<times> addr list" where
  "normalizeMessages h messages =
     (case reduce (h, []) messages 0 of
        Inl e \<Rightarrow> Inl e
      | Inr (h', normalized) \<Rightarrow>
          (case validateMessageSequence h' normalized of
             Inl e \<Rightarrow> Inl e
           | Inr u \<Rightarrow> Inr (h', normalized)))"

text \<open>
  \<open>buildMessageHistory\<close> allocates the two wrapper objects and spreads the caller's
  array between them.
\<close>

definition buildMessageHistory ::
  "heap \<Rightarrow> string \<Rightarrow> addr list \<Rightarrow> string \<Rightarrow> error + heap \<times> addr list" where
  "buildMessageHistory h prompt messages input =
     (let sys = length h;
          h1 = h @ [\<lparr>role = ''system'', content = prompt, reasoning_content = None\<rparr>];
          usr = length h1;
          h2 = h1 @ [\<lparr>role = ''user'', content = input, reasoning_content = None\<rparr>]
      in normalizeMessages h2 (sys # messages @ [usr]))"

text \<open>The invariant of a normalized history: adjacent roles differ.\<close>

fun alternating :: "heap \<Rightarrow> addr list \<Rightarrow> bool" where
  "alternating h (a # b # rest) = (role (h ! b) \<noteq> role (h ! a) \<and> alternating h (b # rest))"
| "alternating h msgs = True"

text \<open>A store of four objects whose roles already alternate, and a caller's store.\<close>

definition heap0 :: heap where
  "heap0 = [\<lparr>role = ''system'', content = ''p'', reasoning_content = None\<rparr>,
            \<lparr>role = ''user'', content = ''hi'', reasoning_content = None\<rparr>,
            \<lparr>role = ''assistant'', content = ''hello'', reasoning_content = None\<rparr>,
            \<lparr>role = ''user'', content = ''bye'', reasoning_content = None\<rparr>]"

text \<open>
  A caller's store with two consecutive user turns (addresses 0 and 1), followed by the
  two wrapper objects that \<open>buildMessageHistory\<close> allocates for prompt \<open>p\<close> and
  input \<open>q\<close> (addresses 2 and 3).
\<close>

definition caller_heap :: heap where
  "caller_heap = [\<lparr>role = ''user'', content = ''a'', reasoning_content = None\<rparr>,
                  \<lparr>role = ''user'', content = ''b'', reasoning_content = None\<rparr>]"


definition merged_heap :: heap where
  "merged_heap =
     [\<lparr>role = ''user'', content = ''a'' @ newline @ ''b'' @ newline @ ''q'',
       reasoning_content = None\<rparr>,
      \<lparr>role = ''user'', content = ''b'', reasoning_content = None\<rparr>,
      \<lparr>role = ''system'', content = ''p'', reasoning_content = None\<rparr>,
      \<lparr>role = ''user'', content = ''q'', reasoning_content = None\<rparr>]"

section \<open>Values at run time\<close>

text \<open>
  The TypeScript types are erased: what \<open>req.json()\<close> and \<open>JSON.parse\<close> return
  is an arbitrary JSON value, and a missing property reads as \<open>undefined\<close>. A number
  is represented by its canonical rendering (what \<open>String(n)\<close> returns, so \<open>''0''\<close>
  stands for both zeros); the code only tests numbers for truthiness, compares them
  and interpolates them into strings. An object is its list of own properties; an
  array has its elements and, being an object, the named properties written to it
  (none after \<open>JSON.parse\<close>).
\<close>

datatype jsval =
    JUndefined
  | JNull
  | JBool bool
  | JNum string
  | JStr string
  | JArr "jsval list" "(string \<times> jsval) list"
  | JObj "(string \<times> jsval) list"

text \<open>JavaScript truthiness (\<open>if (v)\<close>, \<open>!v\<close>); \<open>NaN\<close> does not occur in JSON.\<close>

fun truthy :: "jsval \<Rightarrow> bool" where
  "truthy JUndefined = False"
| "truthy JNull = False"
| "truthy (JBool b) = b"
| "truthy (JNum n) = (n \<noteq> ''0'')"
| "truthy (JStr s) = (s \<noteq> [])"
| "truthy (JArr xs ps) = True"
| "truthy (JObj kvs) = True"

text \<open>
  Reading one of the properties the code names (\<open>prompt\<close>, \<open>messages\<close>, \<open>input\<close>,
  \<open>role\<close>, \<open>content\<close>, \<open>reasoning_content\<close>, \<open>choices\<close>, \<open>delta\<close>, \<open>error\<close>,
  \<open>message\<close>): none of them is defined on a prototype, so primitives answer
  \<open>undefined\<close>, while \<open>null\<close> and \<open>undefined\<close> throw.
\<close>

fun get_prop :: "jsval \<Rightarrow> string \<Rightarrow> error + jsval" where
  "get_prop JUndefined k = Inl TypeError"
| "get_prop JNull k = Inl TypeError"
| "get_prop (JObj kvs) k = Inr (case map_of kvs k of None \<Rightarrow> JUndefined | Some v \<Rightarrow> v)"
| "get_prop (JArr xs ps) k = Inr (case map_of ps k of None \<Rightarrow> JUndefined | Some v \<Rightarrow> v)"
| "get_prop v k = Inr JUndefined"

text \<open>Optional chaining \<open>v?.k\<close> and \<open>v?.[0]\<close>.\<close>

fun opt_prop :: "jsval \<Rightarrow> string \<Rightarrow> jsval" where
  "opt_prop (JObj kvs) k = (case map_of kvs k of None \<Rightarrow> JUndefined | Some v \<Rightarrow> v)"
| "opt_prop (JArr xs ps) k = (case map_of ps k of None \<Rightarrow> JUndefined | Some v \<Rightarrow> v)"
| "opt_prop v k = JUndefined"

fun opt_index0 :: "jsval \<Rightarrow> jsval" where
  "opt_index0 (JArr xs ps) = (case xs of [] \<Rightarrow> JUndefined | x # rest \<Rightarrow> x)"
| "opt_index0 (JStr s) = (case s of [] \<Rightarrow> JUndefined | c # rest \<Rightarrow> JStr [c])"
| "opt_index0 (JObj kvs) = (case map_of kvs ''0'' of None \<Rightarrow> JUndefined | Some v \<Rightarrow> v)"
| "opt_index0 v = JUndefined"

text \<open>
  String conversion as a template literal performs it: an array joins its elements
  with commas, \<open>null\<close> and \<open>undefined\<close> elements giving the empty string.
\<close>

fun join :: "string \<Rightarrow> string list \<Rightarrow> string" where
  "join sep [] = []"
| "join sep [s] = s"
| "join sep (s # t # rest) = s @ sep @ join sep (t # rest)"

fun to_string :: "jsval \<Rightarrow> string" where
  "to_string JUndefined = ''undefined''"
| "to_string JNull = ''null''"
| "to_string (JBool b) = (if b then ''true'' else ''false'')"
| "to_string (JNum n) = n"
| "to_string (JStr s) = s"
| "to_string (JArr xs ps) =
     join '','' (map (\<lambda>x. if x = JNull \<or> x = JUndefined then [] else to_string x) xs)"
| "to_string (JObj kvs) = ''[object Object]''"

text \<open>
  \<open>JSON.parse\<close> belongs to the engine; it is a parameter of everything that calls it:
  \<open>None\<close> stands for the \<open>SyntaxError\<close> it throws.
\<close>

type_synonym json_parse = "string \<Rightarrow> jsval option"

section \<open>The outbound stream and its controller\<close>

text \<open>
  The \<open>ReadableStreamDefaultController\<close> that \<open>start(controller)\<close> receives, as the
  Streams standard defines it. \<open>queue\<close> holds the chunks accepted and not yet read,
  \<open>received\<close> those handed to the consumer, \<open>pending\<close> counts the consumer's reads
  that wait for a chunk, and \<open>emitted\<close> records every chunk \<open>enqueue\<close> accepted.
  A stream with a non-empty queue stays readable after \<open>close()\<close>: it closes when the
  consumer has read the queue.
\<close>

datatype stream_state = Readable | Closed | Errored error

record controller =
  emitted :: "string list"
  queue :: "string list"
  received :: "string list"
  pending :: nat
  closeRequested :: bool
  state :: stream_state

definition new_stream :: controller where
  "new_stream = \<lparr>emitted = [], queue = [], received = [], pending = 0,
                  closeRequested = False, state = Readable\<rparr>"

definition can_close_or_enqueue :: "controller \<Rightarrow> bool" where
  "can_close_or_enqueue c = (\<not> closeRequested c \<and> state c = Readable)"

text \<open>
  Each operation returns the controller after it and the exception it throws, if any.
  \<open>enqueue\<close> and \<open>close\<close> throw a \<open>TypeError\<close> once the stream is closed, closing
  or errored; \<open>error\<close> does nothing unless the stream is still readable, and then
  drops the queue.
\<close>

definition enqueue :: "controller \<Rightarrow> string \<Rightarrow> controller \<times> error option" where
  "enqueue c chunk =
     (if \<not> can_close_or_enqueue c then (c, Some TypeError)
      else if 0 < pending c
      then (c\<lparr>emitted := emitted c @ [chunk], received := received c @ [chunk],
              pending := pending c - 1\<rparr>, None)
      else (c\<lparr>emitted := emitted c @ [chunk], queue := queue c @ [chunk]\<rparr>, None))"

definition close :: "controller \<Rightarrow> controller \<times> error option" where
  "close c =
     (if \<not> can_close_or_enqueue c then (c, Some TypeError)
      else if queue c = []
      then (c\<lparr>closeRequested := True, state := Closed, pending := 0\<rparr>, None)
      else (c\<lparr>closeRequested := True\<rparr>, None))"

definition controller_error :: "controller \<Rightarrow> error \<Rightarrow> controller" where
  "controller_error c e =
     (if state c \<noteq> Readable then c
      else c\<lparr>queue := [], pending := 0, state := Errored e\<rparr>)"

text \<open>One \<open>read()\<close> of the consumer of the outbound stream.\<close>

definition consumer_read :: "controller \<Rightarrow> controller" where
  "consumer_read c =
     (if state c \<noteq> Readable then c
      else (case queue c of
              [] \<Rightarrow> c\<lparr>pending := pending c + 1\<rparr>
            | chunk # rest \<Rightarrow>
                if closeRequested c \<and> rest = []
                then c\<lparr>queue := rest, received := received c @ [chunk], state := Closed\<rparr>
                else c\<lparr>queue := rest, received := received c @ [chunk]\<rparr>))"

section \<open>The stream reframer\<close>

text \<open>
  What the parser of \<open>eventsource-parser\<close> passes to its callback: a \<open>ParsedEvent\<close>
  with its \<open>data\<close>, or a \<open>ReconnectInterval\<close>.
\<close>

datatype sse = Event string | ReconnectInterval nat

text \<open>
  The \<open>try\<close> block of the callback of \<open>createParser\<close> in \<open>createResponseStream\<close>:
  the controller when the block ends, and the exception that ends it, if any.
\<close>

definition try_block :: "json_parse \<Rightarrow> controller \<Rightarrow> string \<Rightarrow> controller \<times> error option" where
  "try_block JSON_parse c data =
     (case JSON_parse data of
        None \<Rightarrow> (c, Some SyntaxError)
      | Some json \<Rightarrow>
          (case get_prop json ''choices'' of
             Inl e \<Rightarrow> (c, Some e)
           | Inr choices \<Rightarrow>
               let delta = opt_prop (opt_index0 choices) ''delta'' in
               if \<not> truthy delta then (c, None)
               else
                 (case (if truthy (opt_prop delta ''reasoning_content'')
                        then enqueue c (''[Reasoning]'' @ to_string (opt_prop delta ''reasoning_content'')
                                          @ ''[/Reasoning]'')
                        else (c, None)) of
                    (c1, Some e) \<Rightarrow> (c1, Some e)
                  | (c1, None) \<Rightarrow>
                      (if truthy (opt_prop delta ''content'')
                       then enqueue c1 (''[Content]'' @ to_string (opt_prop delta ''content'')
                                          @ ''[/Content]'')
                       else (c1, None)))))"

text \<open>The callback: the sentinel and keep-alive branch, then \<open>try\<close>/\<open>catch\<close>.\<close>

definition callback :: "json_parse \<Rightarrow> controller \<Rightarrow> sse \<Rightarrow> controller \<times> error option" where
  "callback JSON_parse c event =
     (case event of
        ReconnectInterval ms \<Rightarrow> (c, None)
      | Event data \<Rightarrow>
          if data = ''[DONE]'' \<or> data = ''keep-alive''
          then (if data = ''[DONE]'' then close c else (c, None))
          else
            (case try_block JSON_parse c data of
               (c1, None) \<Rightarrow> (c1, None)
             | (c1, Some e) \<Rightarrow>
                 (case enqueue c1 (MSG_PARSE_ERROR @ newline) of
                    (c2, Some e') \<Rightarrow> (c2, Some e')
                  | (c2, None) \<Rightarrow> close c2)))"

text \<open>
  \<open>parser.feed(decodedChunk)\<close> calls the callback for each event the chunk completes,
  in order; an exception of the callback leaves \<open>feed\<close> at once.
\<close>

fun feed :: "json_parse \<Rightarrow> controller \<Rightarrow> sse list \<Rightarrow> controller \<times> error option" where
  "feed JSON_parse c [] = (c, None)"
| "feed JSON_parse c (ev # evs) =
     (case callback JSON_parse c ev of
        (c1, Some e) \<Rightarrow> (c1, Some e)
      | (c1, None) \<Rightarrow> feed JSON_parse c1 evs)"

text \<open>
  What happens while the stream exists, in order: \<open>reader.read()\<close> yields a chunk
  (given by the events the parser completes when fed with it), \<open>reader.read()\<close>
  rejects, or the consumer reads the outbound stream. The end of the list is the end
  of the upstream body (\<open>done\<close>). The reads of the consumer are only scheduled between
  chunks: a \<open>feed\<close> runs to its end without interruption.
\<close>

datatype step = Feed "sse list" | ReadFails | ConsumerRead

text \<open>After \<open>start\<close> has returned only the consumer acts.\<close>

fun drain :: "controller \<Rightarrow> step list \<Rightarrow> controller" where
  "drain c [] = c"
| "drain c (ConsumerRead # rest) = drain (consumer_read c) rest"
| "drain c (s # rest) = drain c rest"

text \<open>The \<open>while (true)\<close> loop of \<open>start\<close> inside its \<open>try\<close>/\<open>catch\<close>.\<close>

fun pump :: "json_parse \<Rightarrow> controller \<Rightarrow> step list \<Rightarrow> controller" where
  "pump JSON_parse c [] = c"
| "pump JSON_parse c (ConsumerRead # rest) = pump JSON_parse (consumer_read c) rest"
| "pump JSON_parse c (ReadFails # rest) =
     drain (controller_error c (PlainError MSG_STREAM_FAILED)) rest"
| "pump JSON_parse c (Feed evs # rest) =
     (case feed JSON_parse c evs of
        (c1, Some e) \<Rightarrow> drain (controller_error c1 (PlainError MSG_STREAM_FAILED)) rest
      | (c1, None) \<Rightarrow> pump JSON_parse c1 rest)"

text \<open>
  \<open>createResponseStream\<close>: \<open>has_body\<close> is false when \<open>response.body\<close> is \<open>null\<close>.
\<close>

definition createResponseStream :: "json_parse \<Rightarrow> bool \<Rightarrow> step list \<Rightarrow> controller" where
  "createResponseStream JSON_parse has_body steps =
     (if \<not> has_body
      then drain (controller_error new_stream (PlainError MSG_STREAM_FAILED)) steps
      else pump JSON_parse new_stream steps)"

section \<open>The reframer at the level of events\<close>

text \<open>
  The events that reach the callback: those of the chunks read before the first
  failing \<open>reader.read()\<close>.
\<close>

fun delivered :: "step list \<Rightarrow> sse list" where
  "delivered [] = []"
| "delivered (Feed evs # rest) = evs @ delivered rest"
| "delivered (ConsumerRead # rest) = delivered rest"
| "delivered (ReadFails # rest) = []"

text \<open>
  The chunks of a delta as the specification words them: a Reasoning chunk for a
  non-empty reasoning fragment, then a Content chunk for a non-empty content fragment.
\<close>

definition delta_chunks :: "jsval \<Rightarrow> string list" where
  "delta_chunks delta =
     (if \<not> truthy delta then []
      else (if truthy (opt_prop delta ''reasoning_content'')
            then [''[Reasoning]'' @ to_string (opt_prop delta ''reasoning_content'') @ ''[/Reasoning]'']
            else [])
         @ (if truthy (opt_prop delta ''content'')
            then [''[Content]'' @ to_string (opt_prop delta ''content'') @ ''[/Content]'']
            else []))"

text \<open>
  An event ends the outbound stream when it is the sentinel, or when its payload is
  neither the sentinel nor keep-alive and the \<open>try\<close> block throws on it: the payload is
  not JSON, or it is the JSON \<open>null\<close>, whose \<open>.choices\<close> throws.
\<close>

definition event_fails :: "json_parse \<Rightarrow> sse \<Rightarrow> bool" where
  "event_fails JSON_parse ev =
     (case ev of
        ReconnectInterval ms \<Rightarrow> False
      | Event data \<Rightarrow>
          data \<noteq> ''[DONE]'' \<and> data \<noteq> ''keep-alive'' \<and>
          (case JSON_parse data of
             None \<Rightarrow> True
           | Some json \<Rightarrow> (case get_prop json ''choices'' of Inl e \<Rightarrow> True | Inr v \<Rightarrow> False)))"

definition event_closes :: "json_parse \<Rightarrow> sse \<Rightarrow> bool" where
  "event_closes JSON_parse ev = (ev = Event ''[DONE]'' \<or> event_fails JSON_parse ev)"

definition event_chunks :: "json_parse \<Rightarrow> sse \<Rightarrow> string list" where
  "event_chunks JSON_parse ev =
     (case ev of
        ReconnectInterval ms \<Rightarrow> []
      | Event data \<Rightarrow>
          if data = ''[DONE]'' \<or> data = ''keep-alive'' then []
          else
            (case JSON_parse data of
               None \<Rightarrow> [MSG_PARSE_ERROR @ newline]
             | Some json \<Rightarrow>
                 (case get_prop json ''choices'' of
                    Inl e \<Rightarrow> [MSG_PARSE_ERROR @ newline]
                  | Inr choices \<Rightarrow> delta_chunks (opt_prop (opt_index0 choices) ''delta''))))"

text \<open>The chunks expected of a sequence of events, and whether it closes the stream.\<close>

fun expected_chunks :: "json_parse \<Rightarrow> sse list \<Rightarrow> string list" where
  "expected_chunks JSON_parse [] = []"
| "expected_chunks JSON_parse (ev # evs) =
     event_chunks JSON_parse ev @
       (if event_closes JSON_parse ev then [] else expected_chunks JSON_parse evs)"

fun expected_closed :: "json_parse \<Rightarrow> sse list \<Rightarrow> bool" where
  "expected_closed JSON_parse [] = False"
| "expected_closed JSON_parse (ev # evs) =
     (event_closes JSON_parse ev \<or> expected_closed JSON_parse evs)"




section \<open>Example payloads\<close>

text \<open>
  The two payloads of the specification's example with the values \<open>JSON.parse\<close>
  returns for them, an event with both fragments, an error body of the upstream, and
  a \<open>JSON.parse\<close> that knows just these.
\<close>

definition data_r1 :: string where
  \<open>data_r1 = ''{"choices":[{"delta":{"reasoning_content":"r1"}}]}''\<close>

definition data_c1 :: string where
  \<open>data_c1 = ''{"choices":[{"delta":{"content":"c1"}}]}''\<close>

definition data_both :: string where
  \<open>data_both = ''{"choices":[{"delta":{"content":"c2","reasoning_content":"r2"}}]}''\<close>

definition data_err :: string where
  \<open>data_err = ''{"error":{"message":"Model Not Exist"}}''\<close>

definition json_err :: jsval where
  "json_err = JObj [(''error'', JObj [(''message'', JStr ''Model Not Exist'')])]"

definition json_r1 :: jsval where
  "json_r1 = JObj [(''choices'', JArr [JObj [(''delta'',
               JObj [(''reasoning_content'', JStr ''r1'')])]] [])]"

definition json_c1 :: jsval where
  "json_c1 = JObj [(''choices'', JArr [JObj [(''delta'',
               JObj [(''content'', JStr ''c1'')])]] [])]"

definition json_both :: jsval where
  "json_both = JObj [(''choices'', JArr [JObj [(''delta'',
               JObj [(''content'', JStr ''c2''), (''reasoning_content'', JStr ''r2'')])]] [])]"

definition parse_example :: json_parse where
  "parse_example s =
     (if s = data_r1 then Some json_r1
      else if s = data_c1 then Some json_c1
      else if s = data_both then Some json_both
      else if s = data_err then Some json_err
      else None)"


definition steps_no_done :: "step list" where
  "steps_no_done = [Feed [Event data_r1, Event data_both], ConsumerRead, Feed [Event data_c1], ConsumerRead]"


definition steps_bad_middle :: "step list" where
  "steps_bad_middle = [ConsumerRead, Feed [Event data_r1], Feed [Event ''<html>''], Feed [Event data_c1]]"

definition steps_bad_then_more :: "step list" where
  "steps_bad_then_more = [Feed [Event data_r1, Event ''<html>'', Event data_c1], ConsumerRead]"

section \<open>Request validation on run-time values\<close>

text \<open>
  \<open>validateAndParseRequest\<close>. The argument is what \<open>req.json()\<close> returns, \<open>None\<close> when
  it throws. Destructuring \<open>null\<close> throws; every exception inside the \<open>try\<close> is
  replaced by the same \<open>ApiError\<close>. The result holds \<open>prompt\<close>, the elements of
  \<open>messages\<close> and \<open>input\<close>.
\<close>

definition validateAndParseRequest :: "jsval option \<Rightarrow> error + jsval \<times> jsval list \<times> jsval" where
  "validateAndParseRequest req =
     (case req of
        None \<Rightarrow> Inl (ApiError MSG_INVALID_PARAMS 400)
      | Some data \<Rightarrow>
          (case (get_prop data ''prompt'', get_prop data ''messages'', get_prop data ''input'') of
             (Inr prompt, Inr (JArr messages ps), Inr input) \<Rightarrow>
               if \<not> truthy prompt \<or> \<not> truthy input
               then Inl (ApiError MSG_INVALID_PARAMS 400)
               else Inr (prompt, messages, input)
           | other \<Rightarrow> Inl (ApiError MSG_INVALID_PARAMS 400)))"

text \<open>\<open>validateNoReasoningContent\<close>: reading the property of a \<open>null\<close> element throws.\<close>

fun validateNoReasoningContent :: "jsval list \<Rightarrow> error + unit" where
  "validateNoReasoningContent [] = Inr ()"
| "validateNoReasoningContent (message # rest) =
     (case get_prop message ''reasoning_content'' of
        Inl e \<Rightarrow> Inl e
      | Inr r \<Rightarrow>
          if truthy r then Inl (ApiError MSG_REASONING_CONTENT_NOT_ALLOWED 400)
          else validateNoReasoningContent rest)"

section \<open>The normalizer on run-time values\<close>

text \<open>
  The values \<open>buildMessageHistory\<close> receives from \<open>POST\<close> come from one \<open>JSON.parse\<close>:
  no object occurs twice in them, so the in-place write of the merge is a
  replacement of the last kept element. \<open>===\<close> on two objects or arrays of different
  messages is false; on primitives it compares values.
\<close>

fun strict_eq :: "jsval \<Rightarrow> jsval \<Rightarrow> bool" where
  "strict_eq JUndefined JUndefined = True"
| "strict_eq JNull JNull = True"
| "strict_eq (JBool a) (JBool b) = (a = b)"
| "strict_eq (JNum a) (JNum b) = (a = b)"
| "strict_eq (JStr a) (JStr b) = (a = b)"
| "strict_eq a b = False"

text \<open>
  The assignment \<open>v.k = x\<close> in strict mode (the file is a module): it replaces or adds
  the property of an object or an array and throws on anything else.
\<close>

fun set_field :: "(string \<times> jsval) list \<Rightarrow> string \<Rightarrow> jsval \<Rightarrow> (string \<times> jsval) list" where
  "set_field [] k x = [(k, x)]"
| "set_field ((k', v) # kvs) k x = (if k' = k then (k, x) # kvs else (k', v) # set_field kvs k x)"

fun set_prop :: "jsval \<Rightarrow> string \<Rightarrow> jsval \<Rightarrow> error + jsval" where
  "set_prop (JObj kvs) k x = Inr (JObj (set_field kvs k x))"
| "set_prop (JArr xs ps) k x = Inr (JArr xs (set_field ps k x))"
| "set_prop v k x = Inl TypeError"

definition merge_step_js :: "jsval list \<Rightarrow> jsval \<Rightarrow> nat \<Rightarrow> error + jsval list" where
  "merge_step_js acc cur index =
     (if index = 0 then Inr (acc @ [cur])
      else if acc = [] then Inl TypeError
      else
        let prevMsg = last acc in
        (case (get_prop prevMsg ''role'', get_prop cur ''role'') of
           (Inr prevRole, Inr curRole) \<Rightarrow>
             if strict_eq prevRole curRole
             then
               (case (get_prop prevMsg ''content'', get_prop cur ''content'') of
                  (Inr prevContent, Inr curContent) \<Rightarrow>
                    (case set_prop prevMsg ''content''
                            (JStr (to_string prevContent @ newline @ to_string curContent)) of
                       Inl e \<Rightarrow> Inl e
                     | Inr merged \<Rightarrow> Inr (butlast acc @ [merged]))
                | other \<Rightarrow> Inl TypeError)
             else Inr (acc @ [cur])
         | other \<Rightarrow> Inl TypeError))"

fun reduce_js :: "jsval list \<Rightarrow> jsval list \<Rightarrow> nat \<Rightarrow> error + jsval list" where
  "reduce_js acc [] index = Inr acc"
| "reduce_js acc (cur # rest) index =
     (case merge_step_js acc cur index of
        Inl e \<Rightarrow> Inl e
      | Inr acc' \<Rightarrow> reduce_js acc' rest (Suc index))"

fun validateMessageSequence_js :: "jsval list \<Rightarrow> error + unit" where
  "validateMessageSequence_js [] = Inr ()"
| "validateMessageSequence_js [a] = Inr ()"
| "validateMessageSequence_js (a # b # rest) =
     (case (get_prop b ''role'', get_prop a ''role'') of
        (Inr rb, Inr ra) \<Rightarrow>
          if strict_eq rb ra
          then Inl (ApiError MSG_INVALID_MESSAGE_SEQUENCE 400)
          else validateMessageSequence_js (b # rest)
      | other \<Rightarrow> Inl TypeError)"

definition normalizeMessages_js :: "jsval list \<Rightarrow> error + jsval list" where
  "normalizeMessages_js messages =
     (case reduce_js [] messages 0 of
        Inl e \<Rightarrow> Inl e
      | Inr normalized \<Rightarrow>
          (case validateMessageSequence_js normalized of
             Inl e \<Rightarrow> Inl e
           | Inr u \<Rightarrow> Inr normalized))"

definition buildMessageHistory_js :: "jsval \<Rightarrow> jsval list \<Rightarrow> jsval \<Rightarrow> error + jsval list" where
  "buildMessageHistory_js prompt messages input =
     normalizeMessages_js
       ([JObj [(''content'', prompt), (''role'', JStr ''system'')]]
        @ messages
        @ [JObj [(''content'', input), (''role'', JStr ''user'')]])"

text \<open>
  A typed \<open>Message\<close> as a run-time value: an object with a string \<open>role\<close>, a string
  \<open>content\<close> and, when present, a string \<open>reasoning_content\<close>.
\<close>

definition js_of :: "Message \<Rightarrow> jsval" where
  "js_of m = JObj ([(''role'', JStr (role m)), (''content'', JStr (content m))]
               @ (case reasoning_content m of
                    None \<Rightarrow> []
                  | Some r \<Rightarrow> [(''reasoning_content'', JStr r)]))"

section \<open>Upstream responses and the error mapping\<close>

text \<open>
  The \<open>Response\<close> of \<open>fetch\<close>: \<open>body_text\<close> is what \<open>await response.text()\<close> gives (an
  error when reading the body fails), \<open>has_body\<close> is false when \<open>response.body\<close> is
  \<open>null\<close>. \<open>response.ok\<close> holds for the statuses 200 to 299.
\<close>

record response =
  status :: nat
  statusText :: string
  body_text :: "error + string"
  has_body :: bool

definition ok :: "response \<Rightarrow> bool" where
  "ok r = (200 \<le> status r \<and> status r \<le> 299)"

text \<open>Decimal rendering of a number, as \<open>${response.status}\<close> interpolates it.\<close>

fun show_nat :: "nat \<Rightarrow> string" where
  "show_nat n =
     (if n < 10 then [char_of (48 + n)]
      else show_nat (n div 10) @ [char_of (48 + n mod 10)])"

text \<open>
  \<open>getErrorData\<close>, given the body text already read. \<open>message\<close> holds whatever value
  the upstream put into \<open>error.message\<close>; reading \<open>.error\<close> of \<open>null\<close> throws inside
  the \<open>try\<close>, whose \<open>catch\<close> is empty.
\<close>

definition getErrorData :: "json_parse \<Rightarrow> response \<Rightarrow> string \<Rightarrow> string" where
  "getErrorData JSON_parse resp responseBody =
     (let message =
            (case JSON_parse responseBody of
               None \<Rightarrow> JStr MSG_DEFAULT
             | Some errorResponse \<Rightarrow>
                 (case get_prop errorResponse ''error'' of
                    Inl e \<Rightarrow> JStr MSG_DEFAULT
                  | Inr err \<Rightarrow>
                      if truthy (opt_prop err ''message'') then opt_prop err ''message''
                      else JStr MSG_DEFAULT))
      in if status resp = 429 then MSG_RATE_LIMIT
         else if status resp = 401 then MSG_INVALID_KEY
         else if status resp = 400 then MSG_BAD_REQUEST @ '': '' @ to_string message
         else if status resp = 503 then MSG_SERVICE_UNAVAILABLE
         else MSG_DEFAULT @ '' ('' @ show_nat (status resp) @ '' '' @ statusText resp @ ''): ''
                @ to_string message)"

definition validateApiResponse :: "json_parse \<Rightarrow> response \<Rightarrow> error + unit" where
  "validateApiResponse JSON_parse resp =
     (if \<not> ok resp
      then (if status resp = 401 then Inl (ApiError MSG_INVALID_KEY 401)
            else (case body_text resp of
                    Inl e \<Rightarrow> Inl e
                  | Inr responseBody \<Rightarrow>
                      Inl (ApiError (getErrorData JSON_parse resp responseBody) (status resp))))
      else Inr ())"

text \<open>
  \<open>handleStreamError\<close>. Every value the model throws is an \<open>Error\<close> instance (the
  \<open>AbortError\<close> is a \<open>DOMException\<close>, which inherits from \<open>Error\<close>), so the last
  \<open>throw\<close> of the function is not reached.
\<close>

fun handleStreamError :: "error \<Rightarrow> error" where
  "handleStreamError AbortError = ApiError MSG_TIMEOUT 408"
| "handleStreamError e = e"

section \<open>Configuration and the upstream request\<close>

record env =
  DEEPSEEK_API_KEY :: "string option"
  DEEPSEEKAPI_BASE_URL :: "string option"
  DEEPSEEK_MODEL :: "string option"

record ApiConfig =
  apiUrl :: string
  apiKey :: string
  model :: string
  maxTokens :: nat

text \<open>\<open>process.env.X || d\<close>: an unset or empty variable gives the default.\<close>

fun or_default :: "string option \<Rightarrow> string \<Rightarrow> string" where
  "or_default None d = d"
| "or_default (Some s) d = (if s = [] then d else s)"

definition getApiConfig :: "env \<Rightarrow> error + ApiConfig" where
  "getApiConfig e =
     (case DEEPSEEK_API_KEY e of
        None \<Rightarrow> Inl (ApiError MSG_KEY_NOT_CONFIGURED 500)
      | Some key \<Rightarrow>
          if key = [] then Inl (ApiError MSG_KEY_NOT_CONFIGURED 500)
          else Inr \<lparr>apiUrl = or_default (DEEPSEEKAPI_BASE_URL e) ''https://api.deepseek.com''
                              @ ''/v1/chat/completions'',
                    apiKey = key,
                    model = or_default (DEEPSEEK_MODEL e) ''deepseek-chat'',
                    maxTokens = MAX_TOKENS\<rparr>)"

text \<open>The body \<open>makeApiRequest\<close> sends, before \<open>JSON.stringify\<close>.\<close>

record request =
  req_url :: string
  req_key :: string
  req_model :: string
  req_messages :: "jsval list"
  req_max_tokens :: nat
  req_stream :: bool

text \<open>
  How the upstream answers one request: after \<open>latency\<close> milliseconds (never, if
  \<open>None\<close>) \<open>fetch\<close> resolves with a response or rejects, a network failure being a
  \<open>TypeError\<close>.
\<close>

record upstream =
  latency :: "nat option"
  outcome :: "error + response"

text \<open>
  The first statement of \<open>makeApiRequest\<close> logs \<open>m.role\<close> and \<open>m.content.length\<close> of
  every message: \<open>.length\<close> of \<open>undefined\<close> or \<open>null\<close> throws before \<open>fetch\<close> is
  called. Only the exception matters, the log is not part of the model.
\<close>

fun log_messages :: "jsval list \<Rightarrow> error + unit" where
  "log_messages [] = Inr ()"
| "log_messages (m # rest) =
     (case (get_prop m ''role'', get_prop m ''content'') of
        (Inr r, Inr c) \<Rightarrow>
          if c = JUndefined \<or> c = JNull then Inl TypeError else log_messages rest
      | other \<Rightarrow> Inl TypeError)"

text \<open>
  \<open>await fetch(..., {signal})\<close> under the timer of \<open>createDeepSeekStream\<close>: when the
  upstream has not settled the call before \<open>TIMEOUT_MS\<close>, the timer's callback runs
  \<open>controller.abort()\<close> and \<open>fetch\<close> rejects with an \<open>AbortError\<close>. The second
  component tells whether \<open>abort\<close> was called.
\<close>

definition fetch_with_timeout :: "upstream \<Rightarrow> (error + response) \<times> bool" where
  "fetch_with_timeout up =
     (case latency up of
        None \<Rightarrow> (Inl AbortError, True)
      | Some t \<Rightarrow> if t < TIMEOUT_MS then (outcome up, False) else (Inl AbortError, True))"

section \<open>The detail of an upstream error and example upstreams\<close>








section \<open>The handler\<close>

definition makeApiRequest ::
  "ApiConfig \<Rightarrow> jsval list \<Rightarrow> upstream \<Rightarrow> (error + response) \<times> request list \<times> bool" where
  "makeApiRequest config messages up =
     (case log_messages messages of
        Inl e \<Rightarrow> (Inl e, [], False)
      | Inr u \<Rightarrow>
          (case fetch_with_timeout up of
             (res, aborted) \<Rightarrow>
               (res,
                [\<lparr>req_url = apiUrl config, req_key = apiKey config, req_model = model config,
                  req_messages = messages, req_max_tokens = maxTokens config,
                  req_stream = True\<rparr>],
                aborted)))"

text \<open>The \<open>catch\<close> clause of \<open>createDeepSeekStream\<close>: what it throws for what it caught.\<close>

fun stream_catch :: "error \<Rightarrow> error" where
  "stream_catch (ApiError m s) =
     (if s = 401 then ApiError MSG_INVALID_KEY 401 else handleStreamError (ApiError m s))"
| "stream_catch e = handleStreamError e"

text \<open>
  \<open>createDeepSeekStream\<close>: the outbound stream or the error thrown, the requests sent
  to the upstream and whether the request was aborted. \<open>steps\<close> is what happens to
  the stream once it exists. The second test of \<open>response.ok\<close> repeats the one of
  \<open>validateApiResponse\<close>.
\<close>

definition createDeepSeekStream ::
  "json_parse \<Rightarrow> ApiConfig \<Rightarrow> jsval list \<Rightarrow> upstream \<Rightarrow> step list
   \<Rightarrow> (error + controller) \<times> request list \<times> bool" where
  "createDeepSeekStream JSON_parse config messages up steps =
     (case makeApiRequest config messages up of
        (res, reqs, aborted) \<Rightarrow>
          ((case res of
              Inl e \<Rightarrow> Inl (stream_catch e)
            | Inr resp \<Rightarrow>
                (case validateApiResponse JSON_parse resp of
                   Inl e \<Rightarrow> Inl (stream_catch e)
                 | Inr u \<Rightarrow>
                     if \<not> ok resp
                     then (case body_text resp of
                             Inl e \<Rightarrow> Inl (stream_catch e)
                           | Inr responseBody \<Rightarrow>
                               Inl (stream_catch
                                 (ApiError (getErrorData JSON_parse resp responseBody) (status resp))))
                     else Inr (createResponseStream JSON_parse (has_body resp) steps))),
           reqs, aborted))"

text \<open>
  What \<open>POST\<close> returns: the status and body of the \<open>Response\<close>, the requests sent to
  the upstream and whether the upstream request was aborted. An error body stands for
  \<open>JSON.stringify({success: false, error: error.message})\<close>.
\<close>

datatype payload = ErrorJson error | StreamBody controller

record result =
  http_status :: nat
  payload :: payload
  fetched :: "request list"
  aborted :: bool

fun error_status :: "error \<Rightarrow> nat" where
  "error_status (ApiError m s) = s"
| "error_status e = 500"

text \<open>
  \<open>new Response(body, {status})\<close> with a body throws for a status outside 200 to 599
  and for the statuses that allow no body; the handler then rejects.
\<close>

definition null_body_status :: "nat \<Rightarrow> bool" where
  "null_body_status s = (s = 101 \<or> s = 103 \<or> s = 204 \<or> s = 205 \<or> s = 304)"

definition error_response :: "error \<Rightarrow> request list \<Rightarrow> bool \<Rightarrow> error + result" where
  "error_response e reqs ab =
     (let s = error_status e in
      if s < 200 \<or> 599 < s then Inl RangeError
      else if null_body_status s then Inl TypeError
      else Inr \<lparr>http_status = s, payload = ErrorJson e, fetched = reqs, aborted = ab\<rparr>)"

definition POST :: "json_parse \<Rightarrow> env \<Rightarrow> upstream \<Rightarrow> step list \<Rightarrow> jsval option \<Rightarrow> error + result" where
  "POST JSON_parse e up steps req =
     (case validateAndParseRequest req of
        Inl err \<Rightarrow> error_response err [] False
      | Inr (prompt, messages, input) \<Rightarrow>
          (case validateNoReasoningContent messages of
             Inl err \<Rightarrow> error_response err [] False
           | Inr u \<Rightarrow>
               (case buildMessageHistory_js prompt messages input of
                  Inl err \<Rightarrow> error_response err [] False
                | Inr messagesWithHistory \<Rightarrow>
                    (case getApiConfig e of
                       Inl err \<Rightarrow> error_response err [] False
                     | Inr apiConfig \<Rightarrow>
                         (case createDeepSeekStream JSON_parse apiConfig messagesWithHistory up steps of
                            (Inl err, reqs, ab) \<Rightarrow> error_response err reqs ab
                          | (Inr stream, reqs, ab) \<Rightarrow>
                              Inr \<lparr>http_status = 200, payload = StreamBody stream,
                                    fetched = reqs, aborted = ab\<rparr>)))))"

section \<open>Example requests\<close>

definition env_example :: env where
  "env_example = \<lparr>DEEPSEEK_API_KEY = Some ''sk-1'', DEEPSEEKAPI_BASE_URL = None,
                   DEEPSEEK_MODEL = None\<rparr>"

definition response_200 :: response where
  "response_200 = \<lparr>status = 200, statusText = ''OK'', body_text = Inr [], has_body = True\<rparr>"

definition upstream_ok :: upstream where
  "upstream_ok = \<lparr>latency = Some 120, outcome = Inr response_200\<rparr>"



text \<open>The second message carries a reasoning trace.\<close>

definition request_reasoning :: jsval where
  "request_reasoning = JObj
     [(''prompt'', JStr ''p''),
      (''messages'', JArr [JObj [(''role'', JStr ''user''), (''content'', JStr ''hi'')],
                          JObj [(''role'', JStr ''assistant''), (''content'', JStr ''hello''),
                                (''reasoning_content'', JStr ''thinking'')]] []),
      (''input'', JStr ''q'')]"

text \<open>The same with a \<open>null\<close> element in front of the offending message.\<close>

definition request_null_first :: jsval where
  "request_null_first = JObj
     [(''prompt'', JStr ''p''),
      (''messages'', JArr [JNull,
                          JObj [(''role'', JStr ''assistant''), (''content'', JStr ''hello''),
                                (''reasoning_content'', JStr ''thinking'')]] []),
      (''input'', JStr ''q'')]"

text \<open>
  Numbers for \<open>prompt\<close> and \<open>input\<close>, a role outside the three known ones and a
  message without a role.
\<close>

definition request_untyped :: jsval where
  "request_untyped = JObj
     [(''prompt'', JNum ''5''),
      (''messages'', JArr [JObj [(''role'', JStr ''tool''), (''content'', JStr ''x'')],
                          JObj [(''content'', JStr ''y'')]] []),
      (''input'', JNum ''7'')]"

definition history_untyped :: "jsval list" where
  "history_untyped =
     [JObj [(''content'', JNum ''5''), (''role'', JStr ''system'')],
      JObj [(''role'', JStr ''tool''), (''content'', JStr ''x'')],
      JObj [(''content'', JStr ''y'')],
      JObj [(''content'', JNum ''7''), (''role'', JStr ''user'')]]"

text \<open>A message without \<open>content\<close>.\<close>

definition request_no_content :: jsval where
  "request_no_content = JObj
     [(''prompt'', JStr ''p''),
      (''messages'', JArr [JObj [(''role'', JStr ''assistant'')]] []),
      (''input'', JStr ''q'')]"

section \<open>Conditions of the claims about the handler\<close>


text \<open>A message element with a non-empty \<open>reasoning_content\<close>.\<close>

definition has_reasoning :: "jsval \<Rightarrow> bool" where
  "has_reasoning m = truthy (opt_prop m ''reasoning_content'')"

text \<open>An element whose properties can be read: anything but \<open>null\<close> and \<open>undefined\<close>.\<close>

definition readable :: "jsval \<Rightarrow> bool" where
  "readable m = (m \<noteq> JNull \<and> m \<noteq> JUndefined)"

text \<open>Two neighbours of a sequence have strictly equal roles.\<close>

fun adjacent_roles_equal :: "jsval list \<Rightarrow> bool" where
  "adjacent_roles_equal (a # b # rest) =
     (strict_eq (opt_prop b ''role'') (opt_prop a ''role'') \<or> adjacent_roles_equal (b # rest))"
| "adjacent_roles_equal msgs = False"

section \<open>Properties of the history normalizer\<close>

lemma role_list_update:
  "role m = role (h ! p) \<Longrightarrow> role (h[p := m] ! a) = role (h ! a)"
  by (cases "a = p"; cases "p < length h") (simp_all add: list_update_beyond)

lemma alternating_snoc:
  "acc \<noteq> [] \<Longrightarrow> alternating h acc \<Longrightarrow> role (h ! cur) \<noteq> role (h ! last acc)
   \<Longrightarrow> alternating h (acc @ [cur])"
  by (induction h acc rule: alternating.induct) auto

lemma alternating_roles_cong:
  "(\<And>a. role (h' ! a) = role (h ! a)) \<Longrightarrow> alternating h' xs = alternating h xs"
  by (induction h xs rule: alternating.induct) auto

lemma validate_iff_alternating:
  "validateMessageSequence h xs = Inr () \<longleftrightarrow> alternating h xs"
  by (induction h xs rule: alternating.induct) auto

text \<open>
  The invariant of the merge pass: once the accumulator is non-empty and alternating it
  stays so, no step throws, the first kept element stays first and no role is written.
\<close>

lemma reduce_invariant:
  "acc \<noteq> [] \<Longrightarrow> alternating h acc \<Longrightarrow> 0 < index \<Longrightarrow>
   \<exists>h' out. reduce (h, acc) xs index = Inr (h', out) \<and> alternating h' out \<and> out \<noteq> []
      \<and> hd out = hd acc \<and> (\<forall>a. role (h' ! a) = role (h ! a)) \<and> length h' = length h"
proof (induction xs arbitrary: h acc index)
  case Nil
  then show ?case by simp
next
  case (Cons x xs)
  show ?case
  proof (cases "role (h ! last acc) = role (h ! x)")
    case True
    define h1 where "h1 = h[last acc := (h ! last acc)\<lparr>content :=
                      content (h ! last acc) @ newline @ content (h ! x)\<rparr>]"
    have r: "\<And>a. role (h1 ! a) = role (h ! a)"
      unfolding h1_def by (rule role_list_update) simp
    have step: "merge_step (h, acc) x index = Inr (h1, acc)"
      using Cons.prems True by (simp add: merge_step_def h1_def Let_def)
    have "alternating h1 acc"
      using Cons.prems(2) alternating_roles_cong[of h1 h acc] r by simp
    from Cons.IH[OF Cons.prems(1) this, of "Suc index"]
    obtain h' out where "reduce (h1, acc) xs (Suc index) = Inr (h', out)" "alternating h' out"
      "out \<noteq> []" "hd out = hd acc" "\<forall>a. role (h' ! a) = role (h1 ! a)" "length h' = length h1"
      by auto
    then show ?thesis using step r by (auto simp: h1_def)
  next
    case False
    have step: "merge_step (h, acc) x index = Inr (h, acc @ [x])"
      using Cons.prems False by (simp add: merge_step_def Let_def)
    have "alternating h (acc @ [x])" using Cons.prems False by (intro alternating_snoc) auto
    from Cons.IH[OF _ this, of "Suc index"]
    obtain h' out where "reduce (h, acc @ [x]) xs (Suc index) = Inr (h', out)" "alternating h' out"
      "out \<noteq> []" "hd out = hd (acc @ [x])" "\<forall>a. role (h' ! a) = role (h ! a)" "length h' = length h"
      by auto
    then show ?thesis using step Cons.prems by auto
  qed
qed

lemma reduce_from_empty:
  "reduce (h, []) (x # xs) 0 = reduce (h, [x]) xs (Suc 0)"
  by (simp add: merge_step_def)

lemma normalize_total:
  "\<exists>h' out. reduce (h, []) msgs 0 = Inr (h', out) \<and> normalizeMessages h msgs = Inr (h', out)
     \<and> alternating h' out \<and> (\<forall>a. role (h' ! a) = role (h ! a)) \<and> length h' = length h
     \<and> (msgs \<noteq> [] \<longrightarrow> out \<noteq> [] \<and> hd out = hd msgs)"
proof (cases msgs)
  case Nil
  then show ?thesis by (simp add: normalizeMessages_def)
next
  case (Cons x xs)
  have "alternating h [x]" by simp
  from reduce_invariant[OF _ this, of "Suc 0" xs]
  obtain h' out where r: "reduce (h, [x]) xs (Suc 0) = Inr (h', out)" "alternating h' out"
      "out \<noteq> []" "hd out = x" "\<forall>a. role (h' ! a) = role (h ! a)" "length h' = length h"
    by auto
  have "validateMessageSequence h' out = Inr ()"
    using r(2) by (simp add: validate_iff_alternating)
  then show ?thesis using r Cons
    by (simp add: normalizeMessages_def reduce_from_empty del: reduce.simps)
qed


lemma reduce_alternating_unchanged:
  "acc \<noteq> [] \<Longrightarrow> 0 < index \<Longrightarrow> alternating h (acc @ xs) \<Longrightarrow>
   reduce (h, acc) xs index = Inr (h, acc @ xs)"
proof (induction xs arbitrary: acc index)
  case Nil
  then show ?case by simp
next
  case (Cons x xs)
  have ne: "role (h ! last acc) \<noteq> role (h ! x)"
    using Cons.prems(1,3) by (induction h acc rule: alternating.induct) auto
  have step: "merge_step (h, acc) x index = Inr (h, acc @ [x])"
    using Cons.prems ne by (simp add: merge_step_def Let_def)
  have "reduce (h, acc @ [x]) xs (Suc index) = Inr (h, (acc @ [x]) @ xs)"
    using Cons.prems by (intro Cons.IH) auto
  then show ?case using step by simp
qed

lemma normalize_alternating_unchanged:
  "alternating h msgs \<Longrightarrow> normalizeMessages h msgs = Inr (h, msgs)"
proof (cases msgs)
  case Nil
  then show ?thesis by (simp add: normalizeMessages_def)
next
  case (Cons x xs)
  assume a: "alternating h msgs"
  have "reduce (h, [x]) xs (Suc 0) = Inr (h, [x] @ xs)"
    using a Cons by (intro reduce_alternating_unchanged) auto
  moreover have "validateMessageSequence h msgs = Inr ()"
    using a by (simp add: validate_iff_alternating)
  ultimately show ?thesis using Cons
    by (simp add: normalizeMessages_def reduce_from_empty del: reduce.simps)
qed

text \<open>
  Claim C8. A sequence whose adjacent roles already differ (as every output of the
  normalizer does) is returned as it is, and the store is not written.
\<close>

theorem normalize_idempotent:
  assumes "alternating h msgs"
  shows "normalizeMessages h msgs = Inr (h, msgs)"
  using assms by (rule normalize_alternating_unchanged)

lemma normalize_twice:
  assumes "normalizeMessages h msgs = Inr (h1, out)"
  shows "normalizeMessages h1 out = Inr (h1, out)"
proof -
  from normalize_total[of h msgs] assms have "alternating h1 out" by auto
  then show ?thesis by (rule normalize_alternating_unchanged)
qed

theorem normalize_idempotent_witness:
  "alternating heap0 [0, 1, 2, 3] \<and> normalizeMessages heap0 [0, 1, 2, 3] = Inr (heap0, [0, 1, 2, 3])"
proof -
  have a: "alternating heap0 [0, 1, 2, 3]" by (simp add: heap0_def)
  from normalize_idempotent[OF a] a show ?thesis by simp
qed

section \<open>Aliasing and in-place writes of the normalizer\<close>

lemma merge_step_cases:
  assumes "merge_step (h, acc) x index = Inr (h1, acc1)"
  obtains (push) "h1 = h" "acc1 = acc @ [x]"
  | (merge) "acc \<noteq> []" "0 < index" "role (h ! last acc) = role (h ! x)" "acc1 = acc"
      "h1 = h[last acc := (h ! last acc)\<lparr>content :=
                      content (h ! last acc) @ newline @ content (h ! x)\<rparr>]"
  using assms by (auto simp: merge_step_def Let_def split: if_splits)





lemma merge_step_appends:
  assumes "acc \<noteq> []" "0 < index" "role (h ! last acc) = role (h ! cur)" "last acc < length h"
  shows "\<exists>h1. merge_step (h, acc) cur index = Inr (h1, acc) \<and>
     content (h1 ! last acc) = content (h ! last acc) @ newline @ content (h ! cur)"
  using assms by (simp add: merge_step_def Let_def)



lemma build_caller_heap:
  "buildMessageHistory caller_heap ''p'' [0, 1] ''q'' = Inr (merged_heap, [2, 0])"
  by (simp add: buildMessageHistory_def normalizeMessages_def merge_step_def caller_heap_def
      merged_heap_def Let_def)


section \<open>Properties of the controller and the reframer\<close>

lemma consumer_read_keeps:
  "emitted (consumer_read c) = emitted c"
  "closeRequested (consumer_read c) = closeRequested c"
  "can_close_or_enqueue (consumer_read c) = can_close_or_enqueue c"
  by (auto simp: consumer_read_def can_close_or_enqueue_def split: list.splits)



lemma enqueue_open:
  "can_close_or_enqueue c \<Longrightarrow>
   \<exists>c'. enqueue c chunk = (c', None) \<and> emitted c' = emitted c @ [chunk]
      \<and> can_close_or_enqueue c'"
  by (auto simp: enqueue_def can_close_or_enqueue_def)

lemma close_open:
  "can_close_or_enqueue c \<Longrightarrow>
   \<exists>c'. close c = (c', None) \<and> emitted c' = emitted c \<and> closeRequested c'"
  by (auto simp: close_def can_close_or_enqueue_def)

lemma enqueue_two_open:
  assumes "can_close_or_enqueue c"
  shows "\<exists>c'. (case (if a then enqueue c x else (c, None)) of
                  (c1, Some e) \<Rightarrow> (c1, Some e)
                | (c1, None) \<Rightarrow> (if b then enqueue c1 y else (c1, None))) = (c', None)
      \<and> emitted c' = emitted c @ (if a then [x] else []) @ (if b then [y] else [])
      \<and> can_close_or_enqueue c'"
proof -
  obtain c1 where 1: "(if a then enqueue c x else (c, None)) = (c1, None)"
     "emitted c1 = emitted c @ (if a then [x] else [])" "can_close_or_enqueue c1"
    using enqueue_open[OF assms, of x] assms by (cases a) auto
  obtain c2 where 2: "(if b then enqueue c1 y else (c1, None)) = (c2, None)"
     "emitted c2 = emitted c1 @ (if b then [y] else [])" "can_close_or_enqueue c2"
    using enqueue_open[OF 1(3), of y] 1(3) by (cases b) auto
  show ?thesis using 1 2 by simp
qed

lemma try_block_open:
  assumes "can_close_or_enqueue c" "data \<noteq> ''[DONE]''" "data \<noteq> ''keep-alive''"
  shows "if event_fails p (Event data)
     then (\<exists>e. try_block p c data = (c, Some e))
     else (\<exists>c'. try_block p c data = (c', None)
             \<and> emitted c' = emitted c @ event_chunks p (Event data)
             \<and> can_close_or_enqueue c')"
proof (cases "p data")
  case None
  then show ?thesis using assms by (simp add: event_fails_def try_block_def)
next
  case (Some json)
  show ?thesis
  proof (cases "get_prop json ''choices''")
    case (Inl e)
    then show ?thesis using assms Some by (simp add: event_fails_def try_block_def)
  next
    case (Inr choices)
    let ?d = "opt_prop (opt_index0 choices) ''delta''"
    have nf: "\<not> event_fails p (Event data)" using Some Inr by (simp add: event_fails_def)
    show ?thesis
    proof (cases "truthy ?d")
      case False
      then show ?thesis using assms Some Inr nf
        by (simp add: try_block_def event_chunks_def delta_chunks_def)
    next
      case True
      from enqueue_two_open[OF assms(1)]
      show ?thesis using assms Some Inr nf True
        by (simp add: try_block_def event_chunks_def delta_chunks_def Let_def)
    qed
  qed
qed

lemma callback_open:
  assumes "can_close_or_enqueue c"
  shows "\<exists>c'. callback p c ev = (c', None)
     \<and> emitted c' = emitted c @ event_chunks p ev
     \<and> closeRequested c' = event_closes p ev
     \<and> can_close_or_enqueue c' = (\<not> event_closes p ev)"
proof (cases ev)
  case (ReconnectInterval ms)
  then show ?thesis using assms
    by (simp add: callback_def event_chunks_def event_closes_def event_fails_def can_close_or_enqueue_def)
next
  case (Event data)
  consider (sentinel) "data = ''[DONE]''" | (keep) "data = ''keep-alive''"
    | (other) "data \<noteq> ''[DONE]''" "data \<noteq> ''keep-alive''" by blast
  then show ?thesis
  proof cases
    case sentinel
    then show ?thesis using close_open[OF assms] Event
      by (auto simp: callback_def event_chunks_def event_closes_def can_close_or_enqueue_def)
  next
    case keep
    then show ?thesis using assms Event
      by (simp add: callback_def event_chunks_def event_closes_def event_fails_def can_close_or_enqueue_def)
  next
    case other
    note tb = try_block_open[OF assms other, of p]
    show ?thesis
    proof (cases "event_fails p (Event data)")
      case True
      then obtain e where t: "try_block p c data = (c, Some e)" using tb by auto
      obtain c2 where e2: "enqueue c (MSG_PARSE_ERROR @ newline) = (c2, None)"
        "emitted c2 = emitted c @ [MSG_PARSE_ERROR @ newline]" "can_close_or_enqueue c2"
        using enqueue_open[OF assms] by blast
      obtain c3 where e3: "close c2 = (c3, None)" "emitted c3 = emitted c2" "closeRequested c3"
        using close_open[OF e2(3)] by blast
      have ch: "event_chunks p (Event data) = [MSG_PARSE_ERROR @ newline]"
        using True other by (auto simp: event_chunks_def event_fails_def split: option.splits sum.splits)
      show ?thesis using Event other True t e2 e3 ch
        by (simp add: callback_def event_closes_def can_close_or_enqueue_def)
    next
      case False
      then obtain c' where t: "try_block p c data = (c', None)"
        "emitted c' = emitted c @ event_chunks p (Event data)" "can_close_or_enqueue c'"
        using tb by auto
      then show ?thesis using Event other False
        by (simp add: callback_def event_closes_def can_close_or_enqueue_def)
    qed
  qed
qed

lemma enqueue_closed: "\<not> can_close_or_enqueue c \<Longrightarrow> enqueue c x = (c, Some TypeError)"
  by (simp add: enqueue_def)

lemma close_closed: "\<not> can_close_or_enqueue c \<Longrightarrow> close c = (c, Some TypeError)"
  by (simp add: close_def)

lemma try_block_closed: "\<not> can_close_or_enqueue c \<Longrightarrow> fst (try_block p c data) = c"
  by (auto simp: try_block_def enqueue_closed Let_def split: option.splits sum.splits)

lemma callback_closed: "\<not> can_close_or_enqueue c \<Longrightarrow> fst (callback p c ev) = c"
proof (cases ev)
  case (ReconnectInterval ms)
  then show ?thesis by (simp add: callback_def)
next
  case (Event data)
  assume nc: "\<not> can_close_or_enqueue c"
  obtain c1 x where t: "try_block p c data = (c1, x)" by (cases "try_block p c data")
  then have "c1 = c" using try_block_closed[OF nc, of p data] by simp
  then show ?thesis using Event t nc
    by (cases x) (simp_all add: callback_def enqueue_closed close_closed)
qed

lemma feed_closed: "\<not> can_close_or_enqueue c \<Longrightarrow> fst (feed p c evs) = c"
proof (induction evs)
  case Nil
  then show ?case by simp
next
  case (Cons ev evs)
  obtain c1 x where cb: "callback p c ev = (c1, x)" by (cases "callback p c ev")
  then have "c1 = c" using callback_closed[OF Cons.prems, of p ev] by simp
  then show ?case using cb Cons by (cases x) simp_all
qed

lemma controller_error_not_open:
  "\<not> can_close_or_enqueue (controller_error c e)"
  by (auto simp: controller_error_def can_close_or_enqueue_def)


lemma expected_append:
  "expected_chunks p (xs @ ys) =
     expected_chunks p xs @ (if expected_closed p xs then [] else expected_chunks p ys)"
  "expected_closed p (xs @ ys) = (expected_closed p xs \<or> expected_closed p ys)"
  by (induction xs) auto

lemma feed_open:
  "can_close_or_enqueue c \<Longrightarrow>
   \<exists>c' x. feed p c evs = (c', x) \<and> emitted c' = emitted c @ expected_chunks p evs
      \<and> closeRequested c' = expected_closed p evs
      \<and> can_close_or_enqueue c' = (\<not> expected_closed p evs)
      \<and> (x = None \<or> expected_closed p evs)"
proof (induction evs arbitrary: c)
  case Nil
  then show ?case by (simp add: can_close_or_enqueue_def)
next
  case (Cons ev evs)
  from callback_open[OF Cons.prems, of p ev]
  obtain c1 where cb: "callback p c ev = (c1, None)"
     "emitted c1 = emitted c @ event_chunks p ev"
     "closeRequested c1 = event_closes p ev"
     "can_close_or_enqueue c1 = (\<not> event_closes p ev)" by blast
  show ?case
  proof (cases "event_closes p ev")
    case True
    then have nc: "\<not> can_close_or_enqueue c1" using cb by simp
    obtain c2 x where f: "feed p c1 evs = (c2, x)" by (cases "feed p c1 evs")
    then have "c2 = c1" using feed_closed[OF nc, of p evs] by simp
    then show ?thesis using cb f True nc by simp
  next
    case False
    then have "can_close_or_enqueue c1" using cb by simp
    from Cons.IH[OF this] show ?thesis using cb False by auto
  qed
qed















lemma pump_stays_open:
  "can_close_or_enqueue c \<Longrightarrow> ReadFails \<notin> set s \<Longrightarrow> \<not> expected_closed p (delivered s) \<Longrightarrow>
   can_close_or_enqueue (pump p c s)"
proof (induction p c s rule: pump.induct)
  case (1 p c)
  then show ?case by simp
next
  case (2 p c rest)
  then show ?case by (simp add: consumer_read_keeps)
next
  case (3 p c rest)
  then show ?case by simp
next
  case (4 p c evs rest)
  from feed_open[OF "4.prems"(1), of p evs]
  obtain c1 x where f: "feed p c evs = (c1, x)"
     "can_close_or_enqueue c1 = (\<not> expected_closed p evs)"
     "x = None \<or> expected_closed p evs" by blast
  have ne: "\<not> expected_closed p evs" "\<not> expected_closed p (delivered rest)"
    using "4.prems"(3) by (simp_all add: expected_append)
  then have x: "x = None" and o: "can_close_or_enqueue c1" using f by simp_all
  from "4.IH"[OF f(1)[symmetric] x o] "4.prems"(2) ne(2) show ?case using f x by simp
qed

lemma can_new_stream: "can_close_or_enqueue new_stream"
  by (simp add: can_close_or_enqueue_def new_stream_def)






section \<open>The claims about the reframer\<close>








lemmas run_defs = createResponseStream_def new_stream_def callback_def try_block_def
  enqueue_def close_def consumer_read_def controller_error_def can_close_or_enqueue_def
  parse_example_def data_r1_def data_c1_def data_both_def data_err_def
      json_r1_def json_c1_def json_both_def

text \<open>
  When the upstream body ends and no delivered event has closed the stream, nothing
  closes it: \<open>start\<close> returns after \<open>break\<close> without calling \<open>close\<close>.
\<close>

lemma end_without_done_stays_open:
  assumes "ReadFails \<notin> set s" "\<not> expected_closed p (delivered s)"
  shows "state (createResponseStream p True s) = Readable
     \<and> \<not> closeRequested (createResponseStream p True s)"
  using pump_stays_open[OF can_new_stream assms]
  by (simp add: createResponseStream_def can_close_or_enqueue_def)

text \<open>
  Claim C2, at a failing input. The upstream body delivers three delta events in two
  chunks and ends without \<open>[DONE]\<close>; the consumer reads twice. No event fails to parse
  and no read fails, yet the outbound stream is left readable, neither closed nor
  errored, with \<open>close\<close> never called: a consumer that keeps reading waits forever.
\<close>

theorem end_of_body_leaves_stream_open:
  "ReadFails \<notin> set steps_no_done
   \<and> \<not> expected_closed parse_example (delivered steps_no_done)
   \<and> state (createResponseStream parse_example True steps_no_done) = Readable
   \<and> \<not> closeRequested (createResponseStream parse_example True steps_no_done)
   \<and> state (consumer_read (consumer_read (consumer_read
        (createResponseStream parse_example True steps_no_done)))) = Readable"
  by (simp add: steps_no_done_def run_defs event_closes_def event_fails_def)




text \<open>
  In that run the event after the failing one makes \<open>enqueue\<close> throw inside the
  callback and again inside its \<open>catch\<close>; \<open>start\<close> then calls \<open>controller.error\<close> on
  a stream whose queue the consumer has not read yet, so the stream ends errored and
  the queued chunks, the notice among them, are dropped.
\<close>

lemma later_event_errors_closing_stream:
  "state (createResponseStream parse_example True steps_bad_then_more) =
     Errored (PlainError MSG_STREAM_FAILED)
   \<and> received (createResponseStream parse_example True steps_bad_then_more) = []
   \<and> queue (createResponseStream parse_example True steps_bad_then_more) = []"
  by (simp add: steps_bad_then_more_def run_defs)

section \<open>Properties of the normalizer on run-time values\<close>

lemma strict_eq_sym: "strict_eq a b = strict_eq b a"
  by (cases a; cases b) auto

lemma set_prop_error: "set_prop v k x = Inl e \<Longrightarrow> e = TypeError"
  by (cases v) simp_all

lemma merge_step_js_error: "merge_step_js acc cur index = Inl e \<Longrightarrow> e = TypeError"
  by (cases "get_prop (last acc) ''role''"; cases "get_prop cur ''role''";
      cases "get_prop (last acc) ''content''"; cases "get_prop cur ''content''")
    (auto simp: merge_step_js_def Let_def split: if_splits sum.splits dest: set_prop_error)

lemma reduce_js_error: "reduce_js acc xs index = Inl e \<Longrightarrow> e = TypeError"
  by (induction xs arbitrary: acc index) (auto split: sum.splits dest: merge_step_js_error)

lemma validate_js_roles:
  "map (\<lambda>x. get_prop x ''role'') xs = map (\<lambda>x. get_prop x ''role'') ys \<Longrightarrow>
   validateMessageSequence_js xs = validateMessageSequence_js ys"
proof (induction xs arbitrary: ys rule: validateMessageSequence_js.induct)
  case 1
  then show ?case by simp
next
  case (2 a)
  then show ?case by (cases ys; cases "tl ys") auto
next
  case (3 a b rest)
  then obtain a' b' rest' where ys: "ys = a' # b' # rest'" by (cases ys; cases "tl ys") auto
  then show ?case using 3 by (auto split: sum.splits)
qed

lemma validate_js_snoc:
  assumes "validateMessageSequence_js acc = Inr ()" "acc \<noteq> []"
    and "get_prop (last acc) ''role'' = Inr r1" "get_prop cur ''role'' = Inr r2"
    and "\<not> strict_eq r1 r2"
  shows "validateMessageSequence_js (acc @ [cur]) = Inr ()"
  using assms
proof (induction acc rule: validateMessageSequence_js.induct)
  case 1
  then show ?case by simp
next
  case (2 a)
  then show ?case by (simp add: strict_eq_sym[of r2 r1])
next
  case (3 a b rest)
  then show ?case by (auto split: sum.splits if_splits)
qed

lemma get_prop_set_field_other:
  "k \<noteq> k' \<Longrightarrow> map_of (set_field kvs k x) k' = map_of kvs k'"
  by (induction kvs) auto

lemma set_prop_keeps_role:
  "set_prop v ''content'' x = Inr v' \<Longrightarrow> get_prop v' ''role'' = get_prop v ''role''"
  by (cases v) (auto simp: get_prop_set_field_other)

lemma get_prop_Inr: "get_prop v k = Inr r \<Longrightarrow> get_prop v k' = Inr (opt_prop v k')"
  by (cases v) simp_all

lemma reduce_js_validates:
  "reduce_js acc xs index = Inr out \<Longrightarrow> validateMessageSequence_js acc = Inr () \<Longrightarrow>
   (index = 0) = (acc = []) \<Longrightarrow> validateMessageSequence_js out = Inr ()"
proof (induction xs arbitrary: acc index)
  case Nil
  then show ?case by simp
next
  case (Cons x xs)
  from Cons.prems(1) obtain acc1 where
    s: "merge_step_js acc x index = Inr acc1" and r: "reduce_js acc1 xs (Suc index) = Inr out"
    by (auto split: sum.splits)
  have "validateMessageSequence_js acc1 = Inr () \<and> acc1 \<noteq> []"
  proof (cases "index = 0")
    case True
    then show ?thesis using s Cons.prems(3) by (auto simp: merge_step_js_def)
  next
    case False
    then have ne: "acc \<noteq> []" using Cons.prems(3) by simp
    obtain r1 r2 where
      roles: "get_prop (last acc) ''role'' = Inr r1" "get_prop x ''role'' = Inr r2"
      using s False ne
      by (cases "get_prop (last acc) ''role''"; cases "get_prop x ''role''")
        (simp_all add: merge_step_js_def Let_def)
    have rd: "get_prop (last acc) ''content'' = Inr (opt_prop (last acc) ''content'')"
      "get_prop x ''content'' = Inr (opt_prop x ''content'')"
      using roles by (auto dest: get_prop_Inr)
    show ?thesis
    proof (cases "strict_eq r1 r2")
      case True
      define c where "c = JStr (to_string (opt_prop (last acc) ''content'') @ newline
                            @ to_string (opt_prop x ''content''))"
      from s False ne roles rd True obtain m' where
        m: "set_prop (last acc) ''content'' c = Inr m'" "acc1 = butlast acc @ [m']"
        by (cases "set_prop (last acc) ''content'' c")
          (simp_all add: merge_step_js_def Let_def c_def)
      have "map (\<lambda>x. get_prop x ''role'') acc1 =
            map (\<lambda>x. get_prop x ''role'') (butlast acc) @ [get_prop (last acc) ''role'']"
        using m set_prop_keeps_role[OF m(1)] by simp
      also have "\<dots> = map (\<lambda>x. get_prop x ''role'') (butlast acc @ [last acc])" by simp
      also have "\<dots> = map (\<lambda>x. get_prop x ''role'') acc" using ne by simp
      finally have "validateMessageSequence_js acc1 = validateMessageSequence_js acc"
        by (rule validate_js_roles)
      then show ?thesis using Cons.prems(2) m(2) by simp
    next
      case nonmerge: False
      then have "acc1 = acc @ [x]"
        using s False ne roles by (simp add: merge_step_js_def Let_def)
      then show ?thesis
        using validate_js_snoc[OF Cons.prems(2) ne roles nonmerge] by simp
    qed
  qed
  then show ?case using Cons.IH[OF r] by simp
qed

text \<open>
  On run-time values too the re-validation never throws: the normalizer returns a
  sequence, or throws the \<open>TypeError\<close> of an element that is not an object.
\<close>

lemma normalize_js_never_invalid_sequence:
  "(\<exists>out. normalizeMessages_js msgs = Inr out \<and> validateMessageSequence_js out = Inr ())
   \<or> normalizeMessages_js msgs = Inl TypeError"
proof (cases "reduce_js [] msgs 0")
  case (Inl e)
  then show ?thesis using reduce_js_error[OF Inl] by (simp add: normalizeMessages_js_def)
next
  case (Inr out)
  have "validateMessageSequence_js out = Inr ()"
    using reduce_js_validates[OF Inr] by simp
  then show ?thesis using Inr by (simp add: normalizeMessages_js_def)
qed

lemma primitive_elements_throw:
  "buildMessageHistory_js (JStr ''p'') [JNum ''5'', JNum ''5''] (JStr ''q'') = Inl TypeError"
  by (simp add: buildMessageHistory_js_def normalizeMessages_js_def merge_step_js_def)

lemma js_of_props:
  "get_prop (js_of m) ''role'' = Inr (JStr (role m))"
  "get_prop (js_of m) ''content'' = Inr (JStr (content m))"
  by (simp_all add: js_of_def)

lemma js_of_set_content:
  "set_prop (js_of m) ''content'' (JStr c) = Inr (js_of (m\<lparr>content := c\<rparr>))"
  by (simp add: js_of_def)

lemma merge_step_js_of:
  assumes "acc \<noteq> []" "0 < index"
  shows "merge_step_js (map (\<lambda>a. js_of (h ! a)) acc) (js_of (h ! x)) index =
     (if role (h ! last acc) = role (h ! x)
      then Inr (butlast (map (\<lambda>a. js_of (h ! a)) acc) @
             [js_of ((h ! last acc)\<lparr>content := content (h ! last acc) @ newline @ content (h ! x)\<rparr>)])
      else Inr (map (\<lambda>a. js_of (h ! a)) acc @ [js_of (h ! x)]))"
  using assms
  by (simp add: merge_step_js_def Let_def last_map js_of_props js_of_set_content)

text \<open>
  The two models of the normalizer agree: on a store in which the references of the
  array are valid and pairwise distinct (as for the objects of one parsed request),
  the merge pass on run-time values computes the values of the merge pass on the store.
\<close>

lemma reduce_js_of:
  "reduce (h, acc) xs index = Inr (h', out) \<Longrightarrow> distinct (acc @ xs) \<Longrightarrow>
   \<forall>a \<in> set (acc @ xs). a < length h \<Longrightarrow> (index = 0) = (acc = []) \<Longrightarrow>
   reduce_js (map (\<lambda>a. js_of (h ! a)) acc) (map (\<lambda>a. js_of (h ! a)) xs) index =
     Inr (map (\<lambda>a. js_of (h' ! a)) out)"
proof (induction xs arbitrary: h acc index)
  case Nil
  then show ?case by simp
next
  case (Cons x xs)
  from Cons.prems(1) obtain h1 acc1 where
    s: "merge_step (h, acc) x index = Inr (h1, acc1)"
    and r: "reduce (h1, acc1) xs (Suc index) = Inr (h', out)"
    by (auto split: sum.splits)
  from s show ?case
  proof (cases rule: merge_step_cases)
    case push
    have js: "merge_step_js (map (\<lambda>a. js_of (h ! a)) acc) (js_of (h ! x)) index =
        Inr (map (\<lambda>a. js_of (h ! a)) (acc @ [x]))"
    proof (cases "index = 0")
      case True
      then show ?thesis by (simp add: merge_step_js_def)
    next
      case False
      then have ne: "acc \<noteq> []" "0 < index" using Cons.prems(4) by simp_all
      have "role (h ! last acc) \<noteq> role (h ! x)"
        using s push False ne by (auto simp: merge_step_def Let_def split: if_splits)
      then show ?thesis using merge_step_js_of[OF ne, of h x] by simp
    qed
    have "reduce_js (map (\<lambda>a. js_of (h ! a)) (acc @ [x])) (map (\<lambda>a. js_of (h ! a)) xs) (Suc index) =
        Inr (map (\<lambda>a. js_of (h' ! a)) out)"
      using Cons.IH[of h "acc @ [x]" "Suc index"] r push Cons.prems(2,3) by simp
    then show ?thesis using js by simp
  next
    case merge
    let ?p = "last acc"
    let ?m = "(h ! ?p)\<lparr>content := content (h ! ?p) @ newline @ content (h ! x)\<rparr>"
    have p: "?p \<in> set acc" "?p < length h" using merge(1) Cons.prems(3) by simp_all
    have other: "a \<noteq> ?p \<Longrightarrow> h1 ! a = h ! a" for a using merge(5) by simp
    have at_p: "h1 ! ?p = ?m" using merge(5) p(2) by simp
    have "?p \<notin> set xs" using Cons.prems(2) p(1) by auto
    then have xs: "map (\<lambda>a. js_of (h1 ! a)) xs = map (\<lambda>a. js_of (h ! a)) xs"
      by (intro map_cong refl) (metis other)
    have "distinct acc" using Cons.prems(2) by simp
    then have "?p \<notin> set (butlast acc)"
      using merge(1) by (metis append_butlast_last_id distinct_butlast not_distinct_conv_prefix)
    then have bl: "map (\<lambda>a. js_of (h1 ! a)) (butlast acc) = map (\<lambda>a. js_of (h ! a)) (butlast acc)"
      by (intro map_cong refl) (metis other)
    have "map (\<lambda>a. js_of (h1 ! a)) acc = map (\<lambda>a. js_of (h1 ! a)) (butlast acc @ [?p])"
      using merge(1) by simp
    also have "\<dots> = butlast (map (\<lambda>a. js_of (h ! a)) acc) @ [js_of ?m]"
      using bl at_p by (simp add: map_butlast)
    finally have acc: "butlast (map (\<lambda>a. js_of (h ! a)) acc) @ [js_of ?m] =
        map (\<lambda>a. js_of (h1 ! a)) acc" by simp
    have js: "merge_step_js (map (\<lambda>a. js_of (h ! a)) acc) (js_of (h ! x)) index =
        Inr (map (\<lambda>a. js_of (h1 ! a)) acc)"
      using merge_step_js_of[OF merge(1,2), of h x] merge(3) acc by simp
    have len: "length h1 = length h" using merge(5) by simp
    have "reduce_js (map (\<lambda>a. js_of (h1 ! a)) acc) (map (\<lambda>a. js_of (h1 ! a)) xs) (Suc index) =
        Inr (map (\<lambda>a. js_of (h' ! a)) out)"
      using Cons.IH[of h1 acc "Suc index"] r merge(4) Cons.prems(2,3) merge(1) len by simp
    then show ?thesis using js xs by simp
  qed
qed

lemma normalize_js_of:
  assumes "normalizeMessages h msgs = Inr (h', out)" "distinct msgs" "\<forall>a \<in> set msgs. a < length h"
  shows "normalizeMessages_js (map (\<lambda>a. js_of (h ! a)) msgs) = Inr (map (\<lambda>a. js_of (h' ! a)) out)"
proof -
  from assms(1) have r: "reduce (h, []) msgs 0 = Inr (h', out)"
    by (auto simp: normalizeMessages_def split: sum.splits)
  have j: "reduce_js [] (map (\<lambda>a. js_of (h ! a)) msgs) 0 = Inr (map (\<lambda>a. js_of (h' ! a)) out)"
    using reduce_js_of[OF r] assms(2,3) by simp
  have "validateMessageSequence_js (map (\<lambda>a. js_of (h' ! a)) out) = Inr ()"
    using reduce_js_validates[OF j] by simp
  then show ?thesis using j by (simp add: normalizeMessages_js_def)
qed

section \<open>Properties of the error mapping\<close>


lemma stream_catch_ApiError:
  "stream_catch (ApiError m s) = (if s = 401 then ApiError MSG_INVALID_KEY 401 else ApiError m s)"
  by simp






section \<open>Properties of the handler\<close>

lemma get_prop_readable: "readable m \<Longrightarrow> get_prop m k = Inr (opt_prop m k)"
  by (cases m) (simp_all add: readable_def)





lemma validateAndParseRequest_error:
  "validateAndParseRequest req = Inl err \<Longrightarrow> err = ApiError MSG_INVALID_PARAMS 400"
  by (auto simp: validateAndParseRequest_def
      split: option.splits sum.splits jsval.splits if_splits)

lemma validateAndParseRequest_messages:
  "validateAndParseRequest (Some data) = Inr (prompt, messages, input) \<Longrightarrow>
   \<exists>ps. get_prop data ''messages'' = Inr (JArr messages ps)"
  by (auto simp: validateAndParseRequest_def
      split: option.splits sum.splits jsval.splits if_splits)

lemma reasoning_rejected:
  "has_reasoning m \<Longrightarrow> list_all readable pre \<Longrightarrow>
   validateNoReasoningContent (pre @ m # post) = Inl (ApiError MSG_REASONING_CONTENT_NOT_ALLOWED 400)"
proof (induction pre)
  case Nil
  have "readable m" using Nil(1) by (cases m) (simp_all add: has_reasoning_def readable_def)
  then show ?case using Nil(1) by (simp add: get_prop_readable has_reasoning_def)
next
  case (Cons x pre)
  then show ?case by (simp add: get_prop_readable)
qed

lemma reasoning_never_passes:
  "has_reasoning m \<Longrightarrow>
   validateNoReasoningContent (pre @ m # post) = Inl (ApiError MSG_REASONING_CONTENT_NOT_ALLOWED 400)
   \<or> validateNoReasoningContent (pre @ m # post) = Inl TypeError"
proof (induction pre)
  case Nil
  have "readable m" using Nil(1) by (cases m) (simp_all add: has_reasoning_def readable_def)
  then show ?case using Nil(1) by (simp add: get_prop_readable has_reasoning_def)
next
  case (Cons x pre)
  then show ?case by (cases x) auto
qed

lemma error_response_400:
  "error_response (ApiError msg 400) reqs ab =
     Inr \<lparr>http_status = 400, payload = ErrorJson (ApiError msg 400), fetched = reqs, aborted = ab\<rparr>"
  by (simp add: error_response_def null_body_status_def)

lemma error_response_TypeError:
  "error_response TypeError reqs ab =
     Inr \<lparr>http_status = 500, payload = ErrorJson TypeError, fetched = reqs, aborted = ab\<rparr>"
  by (simp add: error_response_def null_body_status_def)

text \<open>
  Claim C5 as stated fails when a \<open>null\<close> element precedes the offending message:
  reading its \<open>reasoning_content\<close> throws a \<open>TypeError\<close>, which is not an \<open>ApiError\<close>,
  and the handler answers 500.
\<close>

theorem reasoning_after_null_counterexample:
  "POST parse_example env_example upstream_ok [] (Some request_null_first) =
     Inr \<lparr>http_status = 500, payload = ErrorJson TypeError, fetched = [], aborted = False\<rparr>"
  by (simp add: POST_def validateAndParseRequest_def request_null_first_def
      error_response_TypeError)

text \<open>
  Claim C5, amended. For every request whose \<open>messages\<close> array holds an element with
  a non-empty \<open>reasoning_content\<close>, no request is sent to the upstream; and when no
  \<open>null\<close> element precedes the first such element, the handler answers 400 with an
  \<open>ApiError\<close> as JSON error body.
\<close>

theorem reasoning_content_rejected:
  assumes "get_prop data ''messages'' = Inr (JArr (pre @ m # post) ps)"
    and "has_reasoning m"
  shows "\<exists>r. POST p e up steps (Some data) = Inr r \<and> fetched r = [] \<and> \<not> aborted r
     \<and> (list_all readable pre \<longrightarrow>
          http_status r = 400 \<and> (\<exists>msg. payload r = ErrorJson (ApiError msg 400)))"
proof (cases "validateAndParseRequest (Some data)")
  case (Inl err)
  then have "err = ApiError MSG_INVALID_PARAMS 400" by (rule validateAndParseRequest_error)
  then show ?thesis using Inl by (simp add: POST_def error_response_400)
next
  case (Inr triple)
  obtain prompt messages input where t: "triple = (prompt, messages, input)" by (cases triple)
  have m: "messages = pre @ m # post"
    using validateAndParseRequest_messages[of data prompt messages input] Inr t assms(1) by simp
  from reasoning_never_passes[OF assms(2), of pre post]
  show ?thesis
  proof
    assume "validateNoReasoningContent (pre @ m # post) = Inl (ApiError MSG_REASONING_CONTENT_NOT_ALLOWED 400)"
    then show ?thesis using Inr t m by (simp add: POST_def error_response_400)
  next
    assume te: "validateNoReasoningContent (pre @ m # post) = Inl TypeError"
    have "\<not> list_all readable pre" using te reasoning_rejected[OF assms(2), of pre post] by auto
    then show ?thesis using Inr t m te by (simp add: POST_def error_response_TypeError)
  qed
qed

theorem reasoning_content_rejected_witness:
  "get_prop request_reasoning ''messages'' =
     Inr (JArr ([JObj [(''role'', JStr ''user''), (''content'', JStr ''hi'')]]
               @ JObj [(''role'', JStr ''assistant''), (''content'', JStr ''hello''),
                       (''reasoning_content'', JStr ''thinking'')] # []) [])
   \<and> has_reasoning (JObj [(''role'', JStr ''assistant''), (''content'', JStr ''hello''),
                       (''reasoning_content'', JStr ''thinking'')])
   \<and> list_all readable [JObj [(''role'', JStr ''user''), (''content'', JStr ''hi'')]]
   \<and> POST parse_example env_example upstream_ok [] (Some request_reasoning) =
        Inr \<lparr>http_status = 400, payload = ErrorJson (ApiError MSG_REASONING_CONTENT_NOT_ALLOWED 400),
             fetched = [], aborted = False\<rparr>"
proof -
  let ?m = "JObj [(''role'', JStr ''assistant''), (''content'', JStr ''hello''),
                       (''reasoning_content'', JStr ''thinking'')]"
  let ?pre = "[JObj [(''role'', JStr ''user''), (''content'', JStr ''hi'')]]"
  have g: "get_prop request_reasoning ''messages'' = Inr (JArr (?pre @ ?m # []) [])"
    by (simp add: request_reasoning_def)
  have h: "has_reasoning ?m" by (simp add: has_reasoning_def)
  have r: "list_all readable ?pre" by (simp add: readable_def)
  from reasoning_content_rejected[OF g h, of parse_example env_example upstream_ok "[]"] r
  obtain res msg where "POST parse_example env_example upstream_ok [] (Some request_reasoning) = Inr res"
    "fetched res = []" "\<not> aborted res" "http_status res = 400" "payload res = ErrorJson (ApiError msg 400)"
    by auto
  moreover have "POST parse_example env_example upstream_ok [] (Some request_reasoning) =
        Inr \<lparr>http_status = 400, payload = ErrorJson (ApiError MSG_REASONING_CONTENT_NOT_ALLOWED 400),
             fetched = [], aborted = False\<rparr>"
    by (simp add: POST_def validateAndParseRequest_def request_reasoning_def error_response_400)
  ultimately show ?thesis using g h r by simp
qed

lemma validateAndParseRequest_iff:
  "validateAndParseRequest req = Inr (prompt, msgs, input) \<longleftrightarrow>
   (\<exists>data ps. req = Some data \<and> get_prop data ''prompt'' = Inr prompt
       \<and> get_prop data ''messages'' = Inr (JArr msgs ps) \<and> get_prop data ''input'' = Inr input
       \<and> truthy prompt \<and> truthy input)"
  by (auto simp: validateAndParseRequest_def
      split: option.splits sum.splits jsval.splits if_splits)

lemma validateMessageSequence_js_iff:
  "list_all readable msgs \<Longrightarrow>
   validateMessageSequence_js msgs =
     (if adjacent_roles_equal msgs then Inl (ApiError MSG_INVALID_MESSAGE_SEQUENCE 400)
      else Inr ())"
  by (induction msgs rule: adjacent_roles_equal.induct) (simp_all add: get_prop_readable)

lemma untyped_request_forwarded:
  "POST parse_example env_example upstream_ok [] (Some request_untyped) =
     Inr \<lparr>http_status = 200, payload = StreamBody new_stream,
          fetched = [\<lparr>req_url = ''https://api.deepseek.com/v1/chat/completions'',
                      req_key = ''sk-1'', req_model = ''deepseek-chat'',
                      req_messages = history_untyped,
                      req_max_tokens = MAX_TOKENS, req_stream = True\<rparr>],
          aborted = False\<rparr>"
  by (simp add: POST_def validateAndParseRequest_def request_untyped_def history_untyped_def
      buildMessageHistory_js_def normalizeMessages_js_def merge_step_js_def getApiConfig_def
      env_example_def createDeepSeekStream_def makeApiRequest_def fetch_with_timeout_def
      upstream_ok_def response_200_def TIMEOUT_MS_def validateApiResponse_def ok_def
      createResponseStream_def)

text \<open>
  A message without \<open>content\<close> passes validation and normalization too, but the log
  statement of \<open>makeApiRequest\<close> reads \<open>m.content.length\<close> and throws before
  \<open>fetch\<close>: the handler answers 500 and sends nothing.
\<close>

lemma missing_content_stops_at_log:
  "POST parse_example env_example upstream_ok [] (Some request_no_content) =
     Inr \<lparr>http_status = 500, payload = ErrorJson TypeError, fetched = [], aborted = False\<rparr>"
  by (simp add: POST_def validateAndParseRequest_def request_no_content_def
      buildMessageHistory_js_def normalizeMessages_js_def merge_step_js_def getApiConfig_def
      env_example_def createDeepSeekStream_def makeApiRequest_def error_response_TypeError)

text \<open>
  Claim C10. Validation succeeds exactly when the body is a value whose \<open>prompt\<close> and
  \<open>input\<close> are truthy and whose \<open>messages\<close> is an array, whatever their types and
  whatever the elements; the alternation check throws exactly when two neighbours
  have strictly equal roles; and a request with numbers for \<open>prompt\<close> and \<open>input\<close>, a
  role \<open>tool\<close> and a message without role is sent to the upstream with these values.
\<close>

theorem validation_is_shallow:
  "(validateAndParseRequest req = Inr (prompt, msgs, input) \<longleftrightarrow>
      (\<exists>data ps. req = Some data \<and> get_prop data ''prompt'' = Inr prompt
         \<and> get_prop data ''messages'' = Inr (JArr msgs ps) \<and> get_prop data ''input'' = Inr input
         \<and> truthy prompt \<and> truthy input))
   \<and> (list_all readable history \<longrightarrow>
        validateMessageSequence_js history =
          (if adjacent_roles_equal history then Inl (ApiError MSG_INVALID_MESSAGE_SEQUENCE 400)
           else Inr ()))
   \<and> validateAndParseRequest (Some request_untyped) =
        Inr (JNum ''5'', [JObj [(''role'', JStr ''tool''), (''content'', JStr ''x'')],
                         JObj [(''content'', JStr ''y'')]], JNum ''7'')
   \<and> buildMessageHistory_js (JNum ''5'') [JObj [(''role'', JStr ''tool''), (''content'', JStr ''x'')],
                         JObj [(''content'', JStr ''y'')]] (JNum ''7'') = Inr history_untyped
   \<and> POST parse_example env_example upstream_ok [] (Some request_untyped) =
        Inr \<lparr>http_status = 200, payload = StreamBody new_stream,
             fetched = [\<lparr>req_url = ''https://api.deepseek.com/v1/chat/completions'',
                         req_key = ''sk-1'', req_model = ''deepseek-chat'',
                         req_messages = history_untyped,
                         req_max_tokens = MAX_TOKENS, req_stream = True\<rparr>],
             aborted = False\<rparr>"
proof -
  have 1: "validateAndParseRequest (Some request_untyped) =
        Inr (JNum ''5'', [JObj [(''role'', JStr ''tool''), (''content'', JStr ''x'')],
                         JObj [(''content'', JStr ''y'')]], JNum ''7'')"
    by (simp add: validateAndParseRequest_def request_untyped_def)
  have 2: "buildMessageHistory_js (JNum ''5'') [JObj [(''role'', JStr ''tool''), (''content'', JStr ''x'')],
                         JObj [(''content'', JStr ''y'')]] (JNum ''7'') = Inr history_untyped"
    by (simp add: buildMessageHistory_js_def normalizeMessages_js_def merge_step_js_def
        history_untyped_def)
  show ?thesis
    using validateAndParseRequest_iff[of req prompt msgs input]
      validateMessageSequence_js_iff[of history] 1 2 untyped_request_forwarded
    by blast
qed

theorem validation_is_shallow_witness:
  "list_all readable history_untyped \<and> \<not> adjacent_roles_equal history_untyped
   \<and> validateMessageSequence_js history_untyped = Inr ()
   \<and> get_prop request_untyped ''prompt'' = Inr (JNum ''5'') \<and> truthy (JNum ''5'')
   \<and> get_prop request_untyped ''input'' = Inr (JNum ''7'') \<and> truthy (JNum ''7'')
   \<and> validateAndParseRequest (Some request_untyped) =
        Inr (JNum ''5'', [JObj [(''role'', JStr ''tool''), (''content'', JStr ''x'')],
                         JObj [(''content'', JStr ''y'')]], JNum ''7'')"
proof -
  have r: "list_all readable history_untyped" "\<not> adjacent_roles_equal history_untyped"
    by (simp_all add: history_untyped_def readable_def)
  have g: "get_prop request_untyped ''prompt'' = Inr (JNum ''5'')" "truthy (JNum ''5'')"
    "get_prop request_untyped ''input'' = Inr (JNum ''7'')" "truthy (JNum ''7'')"
    "get_prop request_untyped ''messages'' =
       Inr (JArr [JObj [(''role'', JStr ''tool''), (''content'', JStr ''x'')],
                  JObj [(''content'', JStr ''y'')]] [])"
    by (simp_all add: request_untyped_def)
  note t = validation_is_shallow[of "Some request_untyped" "JNum ''5''"
      "[JObj [(''role'', JStr ''tool''), (''content'', JStr ''x'')], JObj [(''content'', JStr ''y'')]]"
      "JNum ''7''" history_untyped]
  have 1: "validateMessageSequence_js history_untyped = Inr ()" using t r by simp
  have 2: "validateAndParseRequest (Some request_untyped) =
        Inr (JNum ''5'', [JObj [(''role'', JStr ''tool''), (''content'', JStr ''x'')],
                         JObj [(''content'', JStr ''y'')]], JNum ''7'')"
    using t g by blast
  show ?thesis using r g 1 2 by simp
qed

end
